theory Spec2Isabelle
  imports Main "HOL-Library.Option_ord" "HOL-Library.Product_Lexorder" "HOL-Library.Multiset"
begin

section \<open>database.py: the task repository\<close>

text \<open>
  One row of the table \<open>tasks\<close>. The column \<open>id\<close> is the field \<open>task_id\<close>. The column
  \<open>due_date\<close> holds the ISO-8601 UTC text that \<open>add_task\<close> writes, or NULL; the model keeps
  the instant that text denotes, in microseconds (the resolution of Python's \<open>datetime\<close>),
  and \<open>None\<close> for NULL. On the texts \<open>isoformat()\<close> produces for UTC instants, SQLite's
  byte-wise text order is the order of the instants. \<open>added_date\<close> is \<open>CURRENT_TIMESTAMP\<close>,
  whole seconds. The seven boolean columns are the notification flags.
\<close>

record task_row =
  task_id :: int
  user_id :: int
  chat_id :: int
  description :: string
  due_date :: "int option"
  status :: string
  added_date :: int
  notified_24h :: bool
  notified_12h :: bool
  notified_6h :: bool
  notified_3h :: bool
  notified_1h :: bool
  notified_15m :: bool
  notified_final_due :: bool

text \<open>
  The database file: the rows of \<open>tasks\<close> in rowid order, the rows of \<open>users\<close>
  (\<open>user_id\<close>, \<open>timezone\<close>), and \<open>seq\<close>, the counter SQLite keeps in
  \<open>sqlite_sequence\<close> for the AUTOINCREMENT key of \<open>tasks\<close>.
\<close>

record database =
  tasks :: "task_row list"
  users :: "(int \<times> string) list"
  seq :: int

definition NOTIFICATION_INTERVAL_KEYS :: "string list" where
  "NOTIFICATION_INTERVAL_KEYS =
     [''notified_24h'', ''notified_12h'', ''notified_6h'',
      ''notified_3h'', ''notified_1h'', ''notified_15m'',
      ''notified_final_due'']"

text \<open>
  \<open>task[key]\<close> on a fetched row, for the flag columns. The program only reads the seven
  flag columns this way; any other name gives \<open>False\<close> here.
\<close>

definition flag :: "task_row \<Rightarrow> string \<Rightarrow> bool" where
  "flag t k =
     (if k = ''notified_24h'' then notified_24h t
      else if k = ''notified_12h'' then notified_12h t
      else if k = ''notified_6h'' then notified_6h t
      else if k = ''notified_3h'' then notified_3h t
      else if k = ''notified_1h'' then notified_1h t
      else if k = ''notified_15m'' then notified_15m t
      else if k = ''notified_final_due'' then notified_final_due t
      else False)"

text \<open>\<open>SET {interval_key} = TRUE\<close> on one row.\<close>

definition set_flag :: "string \<Rightarrow> task_row \<Rightarrow> task_row" where
  "set_flag k t =
     (if k = ''notified_24h'' then t\<lparr>notified_24h := True\<rparr>
      else if k = ''notified_12h'' then t\<lparr>notified_12h := True\<rparr>
      else if k = ''notified_6h'' then t\<lparr>notified_6h := True\<rparr>
      else if k = ''notified_3h'' then t\<lparr>notified_3h := True\<rparr>
      else if k = ''notified_1h'' then t\<lparr>notified_1h := True\<rparr>
      else if k = ''notified_15m'' then t\<lparr>notified_15m := True\<rparr>
      else if k = ''notified_final_due'' then t\<lparr>notified_final_due := True\<rparr>
      else t)"

text \<open>The spec's \<open>fired_thresholds\<close> of a task: the flag columns that are TRUE.\<close>

definition fired_thresholds :: "task_row \<Rightarrow> string set" where
  "fired_thresholds t = {k \<in> set NOTIFICATION_INTERVAL_KEYS. flag t k}"

text \<open>
  Every repository function opens a connection, runs one statement inside
  \<open>try ... except sqlite3.Error\<close> and returns a failure value from the handler. The
  argument \<open>err\<close> says that SQLite raised inside the \<open>try\<close>; nothing is committed then.
  \<open>sqlite3.connect\<close> on the local file is taken to succeed.
\<close>

datatype exn =
    ValueError
  | ZoneInfoNotFoundError
  | NameError string
  | OverflowError
  | BadRequest
  | TelegramError
  | OtherError

text \<open>
  \<open>get_user_timezone_str\<close>. \<open>zi\<close> is \<open>zoneinfo.ZoneInfo\<close> as a test: \<open>zi key\<close> is the
  exception the constructor raises on \<open>key\<close>, or \<open>None\<close> when the zone is found. Only
  \<open>ZoneInfoNotFoundError\<close> is caught by the inner handler; the outer handler catches
  \<open>sqlite3.Error\<close> only, so any other exception of the constructor leaves the function.
\<close>

definition get_user_timezone_str ::
  "(string \<Rightarrow> exn option) \<Rightarrow> bool \<Rightarrow> database \<Rightarrow> int \<Rightarrow> exn + string" where
  "get_user_timezone_str zi err db uid =
     (if err then Inr ''UTC''
      else case map_of (users db) uid of
             None \<Rightarrow> Inr ''UTC''
           | Some tz \<Rightarrow>
               (case zi tz of
                  None \<Rightarrow> Inr tz
                | Some ZoneInfoNotFoundError \<Rightarrow> Inr ''UTC''
                | Some e \<Rightarrow> Inl e))"

text \<open>
  \<open>set_user_timezone\<close>, the only statement of the program that writes the table
  \<open>users\<close>: the constructor is tried first, and only \<open>ZoneInfoNotFoundError\<close> is caught
  (result false); then \<open>INSERT ... ON CONFLICT(user_id) DO UPDATE SET timezone\<close>.
\<close>

definition set_user_timezone ::
  "(string \<Rightarrow> exn option) \<Rightarrow> bool \<Rightarrow> database \<Rightarrow> int \<Rightarrow> string \<Rightarrow> database \<times> (exn + bool)" where
  "set_user_timezone zi err db uid timezone_str =
     (case zi timezone_str of
        Some ZoneInfoNotFoundError \<Rightarrow> (db, Inr False)
      | Some e \<Rightarrow> (db, Inl e)
      | None \<Rightarrow>
          if err then (db, Inr False)
          else
            (db\<lparr>users :=
                 (if uid \<in> fst ` set (users db)
                  then map (\<lambda>r. if fst r = uid then (uid, timezone_str) else r) (users db)
                  else users db @ [(uid, timezone_str)])\<rparr>,
             Inr True))"

text \<open>
  \<open>INSERT INTO tasks(...) VALUES(...)\<close> with status \<open>'pending'\<close> and the seven flags
  \<open>False\<close>; the new AUTOINCREMENT id is one more than the largest id the table ever held.
  \<open>ts\<close> is \<open>CURRENT_TIMESTAMP\<close>. Returns \<open>cursor.lastrowid\<close>, or \<open>None\<close> on an error.
\<close>

definition add_task ::
  "bool \<Rightarrow> database \<Rightarrow> int \<Rightarrow> int \<Rightarrow> string \<Rightarrow> int option \<Rightarrow> int \<Rightarrow> database \<times> int option" where
  "add_task err db uid cid desc due_date_utc ts =
     (if err then (db, None)
      else
        let new_id = fold max (map task_id (tasks db)) (seq db) + 1;
            row = \<lparr>task_id = new_id, user_id = uid, chat_id = cid, description = desc,
                   due_date = due_date_utc, status = ''pending'', added_date = ts,
                   notified_24h = False, notified_12h = False, notified_6h = False,
                   notified_3h = False, notified_1h = False, notified_15m = False,
                   notified_final_due = False\<rparr>
        in (db\<lparr>tasks := tasks db @ [row], seq := new_id\<rparr>, Some new_id))"

text \<open>
  \<open>SELECT * FROM tasks WHERE user_id = ? AND status = ? ORDER BY due_date ASC, added_date ASC\<close>.
  SQLite orders NULL before every other value in an ascending sort, which is the order of
  \<open>int option\<close> with \<open>None\<close> least; the pair is compared lexicographically. Rows equal on
  both keys come out in rowid order (the sort is stable). On an error the result is \<open>[]\<close>.
\<close>

definition order_by :: "task_row \<Rightarrow> int option \<times> int" where
  "order_by t = (due_date t, added_date t)"

definition get_user_tasks :: "bool \<Rightarrow> database \<Rightarrow> int \<Rightarrow> string \<Rightarrow> task_row list" where
  "get_user_tasks err db uid st =
     (if err then []
      else sort_key order_by (filter (\<lambda>t. user_id t = uid \<and> status t = st) (tasks db)))"

text \<open>\<open>SELECT * FROM tasks WHERE id = ? AND user_id = ?\<close>, \<open>fetchone()\<close>.\<close>

definition get_task_by_id :: "bool \<Rightarrow> database \<Rightarrow> int \<Rightarrow> int \<Rightarrow> task_row option" where
  "get_task_by_id err db tid uid =
     (if err then None
      else find (\<lambda>t. task_id t = tid \<and> user_id t = uid) (tasks db))"

text \<open>
  The pending tasks with a due date, each with \<open>COALESCE(u.timezone, 'UTC')\<close> of the
  LEFT JOIN on \<open>users\<close>.
\<close>

definition get_pending_tasks_with_due_dates :: "bool \<Rightarrow> database \<Rightarrow> (task_row \<times> string) list" where
  "get_pending_tasks_with_due_dates err db =
     (if err then []
      else map (\<lambda>t. (t, case map_of (users db) (user_id t) of None \<Rightarrow> ''UTC'' | Some z \<Rightarrow> z))
             (filter (\<lambda>t. status t = ''pending'' \<and> due_date t \<noteq> None) (tasks db)))"

text \<open>
  \<open>UPDATE tasks SET status = ? WHERE id = ? AND user_id = ?\<close>; true when
  \<open>rowcount > 0\<close>.
\<close>

definition update_task_status ::
  "bool \<Rightarrow> database \<Rightarrow> int \<Rightarrow> int \<Rightarrow> string \<Rightarrow> database \<times> bool" where
  "update_task_status err db tid uid st =
     (if err then (db, False)
      else
        let hit = (\<lambda>t. task_id t = tid \<and> user_id t = uid);
            rows_affected = length (filter hit (tasks db))
        in (db\<lparr>tasks := map (\<lambda>t. if hit t then t\<lparr>status := st\<rparr> else t) (tasks db)\<rparr>,
            rows_affected > 0))"

text \<open>\<open>DELETE FROM tasks WHERE id = ? AND user_id = ?\<close>; true when \<open>rowcount > 0\<close>.\<close>

definition delete_task :: "bool \<Rightarrow> database \<Rightarrow> int \<Rightarrow> int \<Rightarrow> database \<times> bool" where
  "delete_task err db tid uid =
     (if err then (db, False)
      else
        let hit = (\<lambda>t. task_id t = tid \<and> user_id t = uid);
            rows_affected = length (filter hit (tasks db))
        in (db\<lparr>tasks := filter (\<lambda>t. \<not> hit t) (tasks db)\<rparr>, rows_affected > 0))"

text \<open>
  \<open>UPDATE tasks SET {interval_key} = TRUE WHERE id = ?\<close>, after the check that the key
  is one of \<open>NOTIFICATION_INTERVAL_KEYS\<close>; true when \<open>rowcount > 0\<close>.
\<close>

definition mark_specific_notification_sent ::
  "bool \<Rightarrow> database \<Rightarrow> int \<Rightarrow> string \<Rightarrow> database \<times> bool" where
  "mark_specific_notification_sent err db tid interval_key =
     (if interval_key \<notin> set NOTIFICATION_INTERVAL_KEYS then (db, False)
      else if err then (db, False)
      else
        let rows_affected = length (filter (\<lambda>t. task_id t = tid) (tasks db))
        in (db\<lparr>tasks := map (\<lambda>t. if task_id t = tid then set_flag interval_key t else t) (tasks db)\<rparr>,
            rows_affected > 0))"

section \<open>bot.py: texts, the Telegram gate and the environment\<close>

text \<open>
  A \<open>zoneinfo.ZoneInfo\<close> object is known by its \<open>key\<close>. \<open>UTC\<close> is the module constant
  \<open>zoneinfo.ZoneInfo("UTC")\<close>.
\<close>

datatype zone = Zone (key: string)

definition UTC :: zone where
  "UTC = Zone ''UTC''"

text \<open>
  A message text is kept as the f-string that builds it (without its emoji and line
  breaks) and the values interpolated, in order: an integer, a string, an instant rendered
  in a zone by \<open>strftime('%Y-%m-%d %H:%M')\<close>, a nested text, or the joined lines of a list.
\<close>

datatype message_text = Fmt string "arg list"
  and arg = I int | S string | D int zone | T message_text | L "message_text list"

type_synonym keyboard = "(string \<times> string) list"

text \<open>
  The calls on the Telegram gate: \<open>context.bot.send_message(chat_id, text, reply_markup)\<close>,
  \<open>update.message.reply_text(text)\<close> and \<open>query.edit_message_text(text)\<close>. The parse mode is
  left out. \<open>query.answer()\<close> sits in a \<open>try\<close> that swallows every exception and does not
  influence what follows; it is left out too.
\<close>

datatype tg_call =
    send_message int message_text "keyboard option"
  | reply_text message_text
  | edit_message_text message_text

datatype db_call =
    Q_get_user_timezone_str int
  | Q_set_user_timezone int
  | Q_add_task int
  | Q_get_user_tasks int string
  | Q_get_task_by_id int int
  | Q_get_pending_tasks_with_due_dates
  | Q_update_task_status int int
  | Q_delete_task int int
  | Q_mark_specific_notification_sent int string

text \<open>
  What a handler does not decide itself: the clock (\<open>datetime.now(UTC)\<close>, microseconds),
  the zone database (the exception \<open>ZoneInfo(key)\<close> raises, \<open>None\<close> when the key is found),
  whether SQLite raises in a repository call, the exception a Telegram call raises
  (\<open>None\<close> when the message is delivered), \<open>dateparser.parse\<close> followed by the
  conversion to UTC of lines 152 to 159 (an exception, or the instant, or \<open>None\<close> when the text
  is not understood), and what \<open>str.isdigit\<close> and \<open>int\<close> answer on a text with characters
  beyond ASCII, which follows the Unicode character database, and what \<open>int\<close> answers on a
  text of more than 4300 characters, where the interpreter's limit on the digits of a
  conversion comes in.
\<close>

record env =
  now_utc :: int
  tz_lookup :: "string \<Rightarrow> exn option"
  sqlite_error :: "db_call \<Rightarrow> bool"
  telegram :: "tg_call \<Rightarrow> exn option"
  dateparser_parse :: "string \<Rightarrow> zone \<Rightarrow> exn + int option"
  isdigit_beyond_ascii :: "string \<Rightarrow> bool"
  int_beyond_ascii :: "string \<Rightarrow> exn + int"

definition timedelta :: "int \<Rightarrow> int \<Rightarrow> int \<Rightarrow> int" where
  "timedelta hours minutes seconds = ((hours * 60 + minutes) * 60 + seconds) * 1000000"

definition NOTIFICATION_INTERVALS :: "(string \<times> int \<times> string) list" where
  "NOTIFICATION_INTERVALS =
     [(''notified_24h'', timedelta 24 0 0, ''in less than 24 hours''),
      (''notified_12h'', timedelta 12 0 0, ''in less than 12 hours''),
      (''notified_6h'', timedelta 6 0 0, ''in less than 6 hours''),
      (''notified_3h'', timedelta 3 0 0, ''in less than 3 hours''),
      (''notified_1h'', timedelta 1 0 0, ''in less than 1 hour''),
      (''notified_15m'', timedelta 0 15 0, ''in less than 15 minutes''),
      (''notified_final_due'', timedelta 0 0 0, ''NOW or is OVERDUE'')]"

subsection \<open>Helper functions\<close>

text \<open>
  \<open>get_user_tz\<close>: the call of \<open>get_user_timezone_str\<close> stands before the \<open>try\<close>, so an
  exception it raises leaves \<open>get_user_tz\<close>; the constructor inside the \<open>try\<close> falls back
  to \<open>UTC\<close> on every exception.
\<close>

definition get_user_tz :: "env \<Rightarrow> database \<Rightarrow> int \<Rightarrow> exn + zone" where
  "get_user_tz env db uid =
     (case get_user_timezone_str (tz_lookup env)
             (sqlite_error env (Q_get_user_timezone_str uid)) db uid of
        Inl e \<Rightarrow> Inl e
      | Inr tz_str \<Rightarrow>
          (case tz_lookup env tz_str of
             None \<Rightarrow> Inr (Zone tz_str)
           | Some e \<Rightarrow> Inr UTC))"

definition format_datetime_local :: "int option \<Rightarrow> zone \<Rightarrow> arg" where
  "format_datetime_local dt_utc user_tz =
     (case dt_utc of
        None \<Rightarrow> S ''[No Date Set]''
      | Some d \<Rightarrow> D d user_tz)"

definition build_task_message_text :: "task_row \<Rightarrow> zone \<Rightarrow> message_text" where
  "build_task_message_text task_data user_tz =
     Fmt ''ID: {task_id} - {description}{due_date_display}''
       [I (task_id task_data), S (description task_data),
        (case due_date task_data of
           None \<Rightarrow> S []
         | Some d \<Rightarrow> T (Fmt '' (Due: {})'' [format_datetime_local (Some d) user_tz]))]"

text \<open>\<open>str(n)\<close> for an integer, used in the callback data of the buttons.\<close>

fun str_nat :: "nat \<Rightarrow> string" where
  "str_nat n =
     (if n < 10 then [''0123456789'' ! n]
      else str_nat (n div 10) @ [''0123456789'' ! (n mod 10)])"

definition str_int :: "int \<Rightarrow> string" where
  "str_int i = (if i < 0 then CHR ''-'' # str_nat (nat (- i)) else str_nat (nat i))"

definition build_task_keyboard :: "int \<Rightarrow> keyboard" where
  "build_task_keyboard tid =
     [(''Done'', ''done:'' @ str_int tid), (''Delete'', ''delete:'' @ str_int tid)]"

text \<open>
  \<open>str.isdigit\<close> and \<open>int(str)\<close>. A text is the list of its UTF-8 bytes. On ASCII text
  \<open>isdigit\<close> asks for one or more of the digits 0 to 9, and \<open>int\<close> strips white space,
  takes one sign, and accepts decimal digits with single underscores between them. On a
  text with a byte beyond ASCII both follow the Unicode character database (other decimal
  digits count as digits, and \<open>int\<close> accepts some of them), which the environment supplies.
\<close>

definition is_digit :: "char \<Rightarrow> bool" where
  "is_digit c = (c \<in> set ''0123456789'')"

definition isdigit :: "string \<Rightarrow> bool" where
  "isdigit s = (s \<noteq> [] \<and> list_all is_digit s)"

definition int_of_digits :: "string \<Rightarrow> int" where
  "int_of_digits s = foldl (\<lambda>n c. 10 * n + (of_char c - 48)) 0 s"

definition is_space :: "char \<Rightarrow> bool" where
  "is_space c = (c = CHR '' '' \<or> (9 \<le> (of_char c :: nat) \<and> (of_char c :: nat) \<le> 13))"

definition strip :: "string \<Rightarrow> string" where
  "strip s = rev (dropWhile is_space (rev (dropWhile is_space s)))"

fun no_double_underscore :: "string \<Rightarrow> bool" where
  "no_double_underscore (a # b # r) =
     (\<not> (a = CHR ''_'' \<and> b = CHR ''_'') \<and> no_double_underscore (b # r))"
| "no_double_underscore r = True"

definition int_literal :: "string \<Rightarrow> bool" where
  "int_literal b =
     (b \<noteq> [] \<and> list_all (\<lambda>c. is_digit c \<or> c = CHR ''_'') b
      \<and> is_digit (hd b) \<and> is_digit (last b) \<and> no_double_underscore b)"

definition py_int :: "string \<Rightarrow> exn + int" where
  "py_int s =
     (let t = strip s;
          signed = (case t of [] \<Rightarrow> False | c # r \<Rightarrow> c = CHR ''-'' \<or> c = CHR ''+'');
          negative = (case t of [] \<Rightarrow> False | c # r \<Rightarrow> c = CHR ''-'');
          body = (if signed then tl t else t)
      in if int_literal body
         then Inr ((if negative then - 1 else 1)
                   * int_of_digits (filter (\<lambda>c. c \<noteq> CHR ''_'') body))
         else Inl ValueError)"

definition is_ascii :: "string \<Rightarrow> bool" where
  "is_ascii s = list_all (\<lambda>c. (of_char c :: nat) < 128) s"

definition str_isdigit :: "env \<Rightarrow> string \<Rightarrow> bool" where
  "str_isdigit env s = (if is_ascii s then isdigit s else isdigit_beyond_ascii env s)"

definition int_of_str :: "env \<Rightarrow> string \<Rightarrow> exn + int" where
  "int_of_str env s =
     (if is_ascii s \<and> length s \<le> 4300 then py_int s else int_beyond_ascii env s)"

text \<open>
  \<open>sqlite3\<close> binds a Python integer as a signed 64-bit value and raises \<open>OverflowError\<close>,
  which is no \<open>sqlite3.Error\<close>, for any other. The handlers below that pass an id typed
  by the user to the repository raise it at their first repository call.
\<close>

definition fits_int64 :: "int \<Rightarrow> bool" where
  "fits_int64 n = (- (2 ^ 63) \<le> n \<and> n < 2 ^ 63)"

subsection \<open>The four operations behind the conversational layer\<close>

definition add_task_logic ::
  "env \<Rightarrow> database \<Rightarrow> string \<Rightarrow> string option \<Rightarrow> int \<Rightarrow> int
   \<Rightarrow> database \<times> (exn + message_text)" where
  "add_task_logic env db desc due uid cid =
     (if uid = 0 \<or> cid = 0 then (db, Inr (Fmt ''Error: Missing context.'' []))
      else
        case get_user_tz env db uid of
          Inl e \<Rightarrow> (db, Inl e)
        | Inr user_tz \<Rightarrow>
            let due_given = (case due of None \<Rightarrow> False | Some s \<Rightarrow> s \<noteq> []);
                due_date_utc =
                  (case due of
                     None \<Rightarrow> None
                   | Some s \<Rightarrow>
                       if s = [] then None
                       else (case dateparser_parse env s user_tz of
                               Inl e \<Rightarrow> None
                             | Inr parsed \<Rightarrow> parsed));
                res = add_task (sqlite_error env (Q_add_task uid)) db uid cid desc
                        due_date_utc (now_utc env div 1000000);
                failed = Fmt ''Sorry, I failed to add the task to the database.'' []
            in case snd res of
                 None \<Rightarrow> (fst res, Inr failed)
               | Some new_id \<Rightarrow>
                   if new_id = 0 then (fst res, Inr failed)
                   else
                     (fst res,
                      Inr (Fmt ''Okay, I've added task '{description}' (ID: {task_id}).{}''
                            [S desc, I new_id,
                             (if due_date_utc \<noteq> None
                              then T (Fmt '' Due date is set to {}.''
                                        [format_datetime_local due_date_utc user_tz])
                              else if due_given
                              then S '' I couldn't understand the due date, so none was set.''
                              else S '' No due date was set.'')])))"

text \<open>
  One line of the conversational list:
  \<open>build_task_message_text(task, user_tz).replace(pin + " ", "- ").replace("*", "")\<close>. The
  two replacements act on the whole line: the pin of the f-string becomes \<open>"- "\<close>, and so
  does every pin followed by a space inside the description (the bytes F0 9F 93 8C 20),
  after which every \<open>"*"\<close> is removed. The number and the rendered date contain neither.
\<close>

definition pin_space :: string where
  "pin_space = [CHR 0xF0, CHR 0x9F, CHR 0x93, CHR 0x8C, CHR 0x20]"

fun replace_pin :: "string \<Rightarrow> string" where
  "replace_pin (a # b # c # d # e # r) =
     (if [a, b, c, d, e] = pin_space then ''- '' @ replace_pin r
      else a # replace_pin (b # c # d # e # r))"
| "replace_pin s = s"

definition list_line :: "task_row \<Rightarrow> zone \<Rightarrow> message_text" where
  "list_line task user_tz =
     Fmt ''- ID: {task_id} - {description}{due_date_display}''
       [I (task_id task),
        S (filter (\<lambda>c. c \<noteq> CHR ''*'') (replace_pin (description task))),
        (case due_date task of
           None \<Rightarrow> S []
         | Some d \<Rightarrow> T (Fmt '' (Due: {})'' [format_datetime_local (Some d) user_tz]))]"

definition list_tasks_logic :: "env \<Rightarrow> database \<Rightarrow> int \<Rightarrow> string \<Rightarrow> exn + message_text" where
  "list_tasks_logic env db uid status_filter =
     (if uid = 0 then Inr (Fmt ''Error: Missing context.'' [])
      else
        case get_user_tz env db uid of
          Inl e \<Rightarrow> Inl e
        | Inr user_tz \<Rightarrow>
            let task_list = get_user_tasks (sqlite_error env (Q_get_user_tasks uid status_filter))
                              db uid status_filter
            in if task_list = [] then Inr (Fmt ''You have no {status_filter} tasks!'' [S status_filter])
               else Inr (Fmt ''OK. Your {status_filter} tasks (Times in {user_tz.key}):{formatted_list}''
                          [S status_filter, S (key user_tz),
                           L (map (\<lambda>task. list_line task user_tz) task_list)]))"

text \<open>
  In the two operations below \<open>task_id\<close> is the number of the function call made by the
  language model, taken to fit the 64 bits of a SQLite integer.
\<close>

definition mark_task_done_logic :: "env \<Rightarrow> database \<Rightarrow> int \<Rightarrow> int \<Rightarrow> database \<times> message_text" where
  "mark_task_done_logic env db tid uid =
     (if uid = 0 \<or> tid = 0 then (db, Fmt ''Error: Missing task ID or user context.'' [])
      else
        case get_task_by_id (sqlite_error env (Q_get_task_by_id tid uid)) db tid uid of
          None \<Rightarrow> (db, Fmt ''Sorry, I couldn't find task ID {task_id}.'' [I tid])
        | Some task \<Rightarrow>
            if status task = ''done''
            then (db, Fmt ''Task {task_id} ('{description}') is already done.''
                        [I tid, S (description task)])
            else
              let res = update_task_status (sqlite_error env (Q_update_task_status tid uid))
                          db tid uid ''done''
              in if snd res
                 then (fst res, Fmt ''Marked task {task_id} ('{description}') as done.''
                                  [I tid, S (description task)])
                 else (fst res, Fmt ''Failed to mark task {task_id} as done (it might have been deleted).''
                                  [I tid]))"

definition delete_task_logic :: "env \<Rightarrow> database \<Rightarrow> int \<Rightarrow> int \<Rightarrow> database \<times> message_text" where
  "delete_task_logic env db tid uid =
     (if uid = 0 \<or> tid = 0 then (db, Fmt ''Error: Missing task ID or user context.'' [])
      else
        let task = get_task_by_id (sqlite_error env (Q_get_task_by_id tid uid)) db tid uid;
            desc = (case task of
                      Some t \<Rightarrow> S (description t)
                    | None \<Rightarrow> T (Fmt ''ID {task_id}'' [I tid]));
            res = delete_task (sqlite_error env (Q_delete_task tid uid)) db tid uid
        in if snd res
           then (fst res, Fmt ''Deleted task {task_id} ('{desc}').'' [I tid, desc])
           else (fst res, Fmt ''Failed to delete task {task_id}. It might have already been deleted.''
                            [I tid]))"

subsection \<open>Command handlers\<close>

text \<open>
  A handler returns the database it leaves, the Telegram calls it made, in order, and the
  exception that left the handler, if any.
\<close>

type_synonym outcome = "database \<times> tg_call list \<times> exn option"

definition reply :: "env \<Rightarrow> database \<Rightarrow> message_text \<Rightarrow> outcome" where
  "reply env db txt = (db, [reply_text txt], telegram env (reply_text txt))"

definition max_show :: nat where
  "max_show = 20"

text \<open>
  The loop of \<open>list_tasks_command\<close>. \<open>shown\<close> counts the task messages that were delivered;
  an exception of \<open>send_message\<close> for a task is logged and the loop goes on. The notice is
  sent outside any \<open>try\<close>.
\<close>

fun show_tasks :: "env \<Rightarrow> int \<Rightarrow> zone \<Rightarrow> task_row list \<Rightarrow> nat \<Rightarrow> tg_call list \<times> exn option" where
  "show_tasks env cid user_tz [] shown = ([], None)"
| "show_tasks env cid user_tz (task # rest) shown =
     (if shown \<ge> max_show
      then
        (let notice = send_message cid (Fmt ''...(First {max_show})'' [I (int max_show)]) None
         in ([notice], telegram env notice))
      else
        let call = send_message cid (build_task_message_text task user_tz)
                     (Some (build_task_keyboard (task_id task)));
            res = show_tasks env cid user_tz rest
                    (if telegram env call = None then shown + 1 else shown)
        in (call # fst res, snd res))"

text \<open>
  \<open>list_tasks_command\<close>. The handlers around \<open>get_user_tasks\<close> and
  \<open>build_task_message_text\<close> catch exceptions that neither function raises (each catches
  its own), so their branches are not reached. The header is sent outside any \<open>try\<close>.
\<close>

definition list_tasks_command :: "env \<Rightarrow> database \<Rightarrow> int \<Rightarrow> int \<Rightarrow> outcome" where
  "list_tasks_command env db uid cid =
     (case get_user_tz env db uid of
        Inl e \<Rightarrow> (db, [], Some e)
      | Inr user_tz \<Rightarrow>
          let task_list = get_user_tasks (sqlite_error env (Q_get_user_tasks uid ''pending''))
                            db uid ''pending''
          in if task_list = [] then reply env db (Fmt ''No pending tasks!'' [])
             else
               let header = reply_text (Fmt ''Pending tasks (Times: {user_tz.key}):'' [S (key user_tz)])
               in case telegram env header of
                    Some e \<Rightarrow> (db, [header], Some e)
                  | None \<Rightarrow>
                      let res = show_tasks env cid user_tz task_list 0
                      in (db, header # fst res, snd res))"

definition done_task_command :: "env \<Rightarrow> database \<Rightarrow> string list \<Rightarrow> int \<Rightarrow> outcome" where
  "done_task_command env db args uid =
     (case args of
        [] \<Rightarrow> reply env db (Fmt ''Usage: /done <id>'' [])
      | a # others \<Rightarrow>
          if \<not> str_isdigit env a then reply env db (Fmt ''Usage: /done <id>'' [])
          else
            case int_of_str env a of
              Inl e \<Rightarrow> (db, [], Some e)
            | Inr tid \<Rightarrow>
                if \<not> fits_int64 tid then (db, [], Some OverflowError)
                else
                (case get_task_by_id (sqlite_error env (Q_get_task_by_id tid uid)) db tid uid of
                   None \<Rightarrow> reply env db (Fmt ''ID {task_id} NF.'' [I tid])
                 | Some task \<Rightarrow>
                     if status task = ''done'' then reply env db (Fmt ''ID {task_id} done.'' [I tid])
                     else
                       let res = update_task_status (sqlite_error env (Q_update_task_status tid uid))
                                   db tid uid ''done''
                       in if snd res then reply env (fst res) (Fmt ''Marked {task_id} done.'' [I tid])
                          else reply env (fst res) (Fmt ''Fail mark {task_id} done.'' [I tid])))"

definition delete_task_command :: "env \<Rightarrow> database \<Rightarrow> string list \<Rightarrow> int \<Rightarrow> outcome" where
  "delete_task_command env db args uid =
     (case args of
        [] \<Rightarrow> reply env db (Fmt ''Usage: /delete <id>'' [])
      | a # others \<Rightarrow>
          if \<not> str_isdigit env a then reply env db (Fmt ''Usage: /delete <id>'' [])
          else
            case int_of_str env a of
              Inl e \<Rightarrow> (db, [], Some e)
            | Inr tid \<Rightarrow>
                if \<not> fits_int64 tid then (db, [], Some OverflowError)
                else
                (case get_task_by_id (sqlite_error env (Q_get_task_by_id tid uid)) db tid uid of
                   None \<Rightarrow> reply env db (Fmt ''ID {task_id} NF.'' [I tid])
                 | Some task_del \<Rightarrow>
                     let res = delete_task (sqlite_error env (Q_delete_task tid uid)) db tid uid
                     in if snd res then reply env (fst res) (Fmt ''Deleted {task_id}.'' [I tid])
                        else reply env (fst res) (Fmt ''Fail delete {task_id}.'' [I tid])))"

text \<open>
  \<open>set_timezone_command\<close>: the name is stored only after the constructor accepted it
  (\<open>except Exception\<close> around \<open>ZoneInfo(timezone_str)\<close>).
\<close>

definition set_timezone_command :: "env \<Rightarrow> database \<Rightarrow> string list \<Rightarrow> int \<Rightarrow> outcome" where
  "set_timezone_command env db args uid =
     (case args of
        [] \<Rightarrow> reply env db (Fmt ''Usage: /set_timezone <Area/City> ...'' [])
      | timezone_str # others \<Rightarrow>
          if tz_lookup env timezone_str \<noteq> None
          then reply env db (Fmt ''Invalid timezone: '{timezone_str}' ...'' [S timezone_str])
          else
            let res = set_user_timezone (tz_lookup env) (sqlite_error env (Q_set_user_timezone uid))
                        db uid timezone_str
            in case snd res of
                 Inl e \<Rightarrow> (fst res, [], Some e)
               | Inr saved \<Rightarrow>
                   if saved
                   then
                     (case get_user_tz env (fst res) uid of
                        Inl e \<Rightarrow> (fst res, [], Some e)
                      | Inr user_tz \<Rightarrow>
                          reply env (fst res)
                            (Fmt ''TZ set: {timezone_str} Current: {now_local}''
                               [S timezone_str, D (now_utc env) user_tz]))
                   else reply env (fst res) (Fmt ''Failed to save timezone.'' []))"

subsection \<open>The callback query handler\<close>

text \<open>\<open>callback_data.split(":", 1)\<close> unpacked into two names: \<open>None\<close> is the \<open>ValueError\<close>.\<close>

definition split_colon :: "string \<Rightarrow> (string \<times> string) option" where
  "split_colon s =
     (if CHR '':'' \<in> set s
      then Some (takeWhile (\<lambda>c. c \<noteq> CHR '':'') s, tl (dropWhile (\<lambda>c. c \<noteq> CHR '':'') s))
      else None)"

text \<open>\<open>try: await query.edit_message_text(...) except BadRequest: pass\<close>.\<close>

definition edit_except_BadRequest :: "env \<Rightarrow> database \<Rightarrow> message_text \<Rightarrow> outcome" where
  "edit_except_BadRequest env db txt =
     (db, [edit_message_text txt],
      case telegram env (edit_message_text txt) of
        Some BadRequest \<Rightarrow> None
      | r \<Rightarrow> r)"

text \<open>
  \<open>button_callback\<close>. \<open>data\<close> is \<open>query.data\<close>, which may be \<open>None\<close>. The call of
  \<open>get_task_by_id\<close> stands outside every \<open>try\<close>. In the branch
  \<open>action == "done"\<close> the first statement (line 422) formats the names \<open>tid\<close> and \<open>uid\<close>,
  which are bound neither in the function nor in the module: it raises \<open>NameError\<close>, outside
  every \<open>try\<close>, and lines 423 to 446 are not reached.
\<close>

definition button_callback :: "env \<Rightarrow> database \<Rightarrow> string option \<Rightarrow> int \<Rightarrow> outcome" where
  "button_callback env db data uid =
     (case get_user_tz env db uid of
        Inl e \<Rightarrow> (db, [], Some e)
      | Inr user_tz \<Rightarrow>
          let parsed =
                (case data of
                   None \<Rightarrow> None
                 | Some callback_data \<Rightarrow>
                     (case split_colon callback_data of
                        None \<Rightarrow> None
                      | Some (action, task_id_str) \<Rightarrow>
                          (case int_of_str env task_id_str of
                             Inl e \<Rightarrow> None
                           | Inr tid \<Rightarrow> Some (action, tid))))
          in case parsed of
               None \<Rightarrow> edit_except_BadRequest env db (Fmt ''Error.'' [])
             | Some (action, tid) \<Rightarrow>
                 if \<not> fits_int64 tid then (db, [], Some OverflowError)
                 else
                 (case get_task_by_id (sqlite_error env (Q_get_task_by_id tid uid)) db tid uid of
                    None \<Rightarrow> edit_except_BadRequest env db (Fmt ''Task {task_id} NF.'' [I tid])
                  | Some task \<Rightarrow>
                      let original_display_text = build_task_message_text task user_tz
                      in if action = ''done'' then (db, [], Some (NameError ''tid''))
                         else if action = ''delete''
                         then
                           let res = delete_task (sqlite_error env (Q_delete_task tid uid)) db tid uid
                           in if snd res
                              then edit_except_BadRequest env (fst res)
                                     (Fmt ''Deleted: ~{original_display_text}~'' [T original_display_text])
                              else edit_except_BadRequest env (fst res)
                                     (Fmt ''Fail delete {task_id}.'' [I tid])
                         else edit_except_BadRequest env db (Fmt ''Unknown.'' [])))"

subsection \<open>The notification job\<close>

definition final_key :: string where
  "final_key = ''notified_final_due''"

text \<open>\<open>sorted([(k, v) for k, v in NOTIFICATION_INTERVALS.items() if k != final_key], key=lambda i: i[1][0])\<close>.\<close>

definition sorted_intervals :: "(string \<times> int \<times> string) list" where
  "sorted_intervals =
     sort_key (\<lambda>i. fst (snd i)) (filter (\<lambda>i. fst i \<noteq> final_key) NOTIFICATION_INTERVALS)"

text \<open>
  \<open>send_message\<close> and, when it returned, \<open>mark_specific_notification_sent\<close>, both inside one
  \<open>try\<close> whose handler only logs. The result of the mark is only logged.
\<close>

definition notify :: "env \<Rightarrow> database \<Rightarrow> int \<Rightarrow> message_text \<Rightarrow> int \<Rightarrow> string \<Rightarrow> database \<times> tg_call list" where
  "notify env db cid msg tid k =
     (let call = send_message cid msg None
      in case telegram env call of
           Some e \<Rightarrow> (db, [call])
         | None \<Rightarrow>
             (fst (mark_specific_notification_sent
                     (sqlite_error env (Q_mark_specific_notification_sent tid k)) db tid k),
              [call]))"

text \<open>The two message f-strings of the job (lines 559 and 575).\<close>

definition final_msg :: "string \<Rightarrow> task_row \<Rightarrow> int \<Rightarrow> zone \<Rightarrow> message_text" where
  "final_msg i_desc task due_utc tz =
     Fmt ''DUE {i_desc}! ID:{tid} Desc:{desc} Due:{d_loc}({tz.key})''
       [S i_desc, I (task_id task), S (description task),
        format_datetime_local (Some due_utc) tz, S (key tz)]"

definition reminder_msg :: "string \<Rightarrow> task_row \<Rightarrow> int \<Rightarrow> zone \<Rightarrow> message_text" where
  "reminder_msg int_desc task due_utc tz =
     Fmt ''Reminder: Due {int_desc}! ID:{tid} Desc:{desc} Due:{d_loc}({tz.key})''
       [S int_desc, I (task_id task), S (description task),
        format_datetime_local (Some due_utc) tz, S (key tz)]"

text \<open>The loop over \<open>sorted_intervals\<close>: the first interval that matches ends it (\<open>break\<close>).\<close>

fun scan_intervals ::
  "env \<Rightarrow> database \<Rightarrow> task_row \<Rightarrow> zone \<Rightarrow> int \<Rightarrow> int \<Rightarrow> (string \<times> int \<times> string) list
   \<Rightarrow> database \<times> tg_call list" where
  "scan_intervals env db task tz due_utc remain [] = (db, [])"
| "scan_intervals env db task tz due_utc remain ((int_key, int_delta, int_desc) # rest) =
     (if remain \<le> int_delta \<and> \<not> flag task int_key
      then notify env db (chat_id task) (reminder_msg int_desc task due_utc tz)
             (task_id task) int_key
      else scan_intervals env db task tz due_utc remain rest)"

text \<open>
  The body of the loop over the fetched rows, for one row and its joined zone name. The
  row is the one fetched at the start of the sweep; the marks go to the database as it is
  now.
\<close>

definition check_task :: "env \<Rightarrow> database \<Rightarrow> task_row \<times> string \<Rightarrow> database \<times> tg_call list" where
  "check_task env db fetched =
     (let task = fst fetched; tz_str = snd fetched;
          tz = (case tz_lookup env tz_str of None \<Rightarrow> Zone tz_str | Some e \<Rightarrow> UTC)
      in case due_date task of
           None \<Rightarrow> (db, [])
         | Some due_utc \<Rightarrow>
             let remain = due_utc - now_utc env
             in if remain \<le> timedelta 0 0 0
                then
                  (if \<not> flag task final_key
                   then
                     (case map_of NOTIFICATION_INTERVALS final_key of
                        None \<Rightarrow> (db, [])
                      | Some (d, i_desc) \<Rightarrow>
                          notify env db (chat_id task) (final_msg i_desc task due_utc tz)
                            (task_id task) final_key)
                   else (db, []))
                else scan_intervals env db task tz due_utc remain sorted_intervals)"

fun for_each_task :: "env \<Rightarrow> (task_row \<times> string) list \<Rightarrow> database \<Rightarrow> database \<times> tg_call list" where
  "for_each_task env [] db = (db, [])"
| "for_each_task env (fetched # rest) db =
     (let one = check_task env db fetched;
          later = for_each_task env rest (fst one)
      in (fst later, snd one @ snd later))"

definition check_deadlines :: "env \<Rightarrow> database \<Rightarrow> database \<times> tg_call list" where
  "check_deadlines env db =
     (let fetched = get_pending_tasks_with_due_dates
                      (sqlite_error env Q_get_pending_tasks_with_due_dates) db
      in if fetched = [] then (db, []) else for_each_task env fetched db)"

section \<open>Sequences of operations\<close>

text \<open>
  The operations of the program on the database: the four operations of the conversational
  layer, the commands, the buttons, the setting of the zone, the notification job, and the
  repository's mark of one notification flag. Each runs in its own environment.
\<close>

datatype operation =
    Add string "string option" int int
  | List_tasks int string
  | Complete int int
  | Delete int int
  | List_command int int
  | Done_command "string list" int
  | Delete_command "string list" int
  | Button "string option" int
  | Set_timezone "string list" int
  | Sweep
  | Mark_fired int string

fun step :: "env \<Rightarrow> operation \<Rightarrow> database \<Rightarrow> database" where
  "step env (Add desc due uid cid) db = fst (add_task_logic env db desc due uid cid)"
| "step env (List_tasks uid st) db = db"
| "step env (Complete tid uid) db = fst (mark_task_done_logic env db tid uid)"
| "step env (Delete tid uid) db = fst (delete_task_logic env db tid uid)"
| "step env (List_command uid cid) db = fst (list_tasks_command env db uid cid)"
| "step env (Done_command args uid) db = fst (done_task_command env db args uid)"
| "step env (Delete_command args uid) db = fst (delete_task_command env db args uid)"
| "step env (Button data uid) db = fst (button_callback env db data uid)"
| "step env (Set_timezone args uid) db = fst (set_timezone_command env db args uid)"
| "step env Sweep db = fst (check_deadlines env db)"
| "step env (Mark_fired tid k) db =
     fst (mark_specific_notification_sent
            (sqlite_error env (Q_mark_specific_notification_sent tid k)) db tid k)"

fun run :: "(env \<times> operation) list \<Rightarrow> database \<Rightarrow> database" where
  "run [] db = db"
| "run ((env, operation) # rest) db = run rest (step env operation db)"

text \<open>Sweeps one after the other, each in its own environment, and all the calls they make.\<close>

fun sweeps :: "env list \<Rightarrow> database \<Rightarrow> database \<times> tg_call list" where
  "sweeps [] db = (db, [])"
| "sweeps (env # rest) db =
     (let one = check_deadlines env db;
          later = sweeps rest (fst one)
      in (fst later, snd one @ snd later))"

text \<open>
  What the schema guarantees of the table \<open>tasks\<close>: \<open>id\<close> is the primary key, and with
  AUTOINCREMENT the counter is never below an id in the table.
\<close>

definition well_formed :: "database \<Rightarrow> bool" where
  "well_formed db =
     (distinct (map task_id (tasks db)) \<and> list_all (\<lambda>t. task_id t \<le> seq db) (tasks db))"

section \<open>What the notification job does to one row\<close>

text \<open>
  The interval \<open>check_task\<close> acts on for a fetched row, with the call it sends, read off the
  branches of the job; \<open>check_task_selected\<close> below proves that \<open>check_task\<close> does exactly
  this.
\<close>

definition selected :: "env \<Rightarrow> task_row \<times> string \<Rightarrow> (string \<times> tg_call) option" where
  "selected env fetched =
     (let task = fst fetched;
          tz = (case tz_lookup env (snd fetched) of None \<Rightarrow> Zone (snd fetched) | Some e \<Rightarrow> UTC)
      in case due_date task of
           None \<Rightarrow> None
         | Some due_utc \<Rightarrow>
             if due_utc - now_utc env \<le> 0
             then (if flag task final_key then None
                   else Some (final_key,
                              send_message (chat_id task)
                                (final_msg ''NOW or is OVERDUE'' task due_utc tz) None))
             else
               (case find (\<lambda>i. due_utc - now_utc env \<le> fst (snd i) \<and> \<not> flag task (fst i))
                       sorted_intervals of
                  None \<Rightarrow> None
                | Some i \<Rightarrow>
                    Some (fst i,
                          send_message (chat_id task)
                            (reminder_msg (snd (snd i)) task due_utc tz) None)))"

text \<open>The flag that reaches the database: the message was delivered and the update went through.\<close>

definition committed :: "env \<Rightarrow> task_row \<times> string \<Rightarrow> string option" where
  "committed env fetched =
     (case selected env fetched of
        None \<Rightarrow> None
      | Some (k, call) \<Rightarrow>
          if telegram env call = None
             \<and> \<not> sqlite_error env (Q_mark_specific_notification_sent (task_id (fst fetched)) k)
          then Some k else None)"

definition commit :: "env \<Rightarrow> task_row \<times> string \<Rightarrow> task_row \<Rightarrow> task_row" where
  "commit env fetched t =
     (if task_id t = task_id (fst fetched)
      then (case committed env fetched of None \<Rightarrow> t | Some k \<Rightarrow> set_flag k t)
      else t)"

section \<open>Notions used for the properties\<close>

text \<open>
  \<open>grows db db'\<close>: the counter did not go back, and every row of \<open>db'\<close> whose id was
  already handed out in \<open>db\<close> comes from a row of \<open>db\<close> with the same id, with at least the
  flags that row had. \<open>preserves\<close> adds that a well-formed table stays well-formed.
\<close>

definition grows :: "database \<Rightarrow> database \<Rightarrow> bool" where
  "grows db db' =
     (seq db \<le> seq db'
      \<and> (\<forall>t' \<in> set (tasks db'). task_id t' \<le> seq db \<longrightarrow>
            (\<exists>t \<in> set (tasks db). task_id t = task_id t'
                \<and> fired_thresholds t \<subseteq> fired_thresholds t')))"

definition preserves :: "database \<Rightarrow> database \<Rightarrow> bool" where
  "preserves db db' = (well_formed db \<longrightarrow> well_formed db' \<and> grows db db')"

text \<open>
  What the one writer of \<open>users\<close> guarantees of a stored zone name in an environment: the
  constructor accepted the name when it was stored, so now it either finds the zone or,
  when the zone has left the zone database since, raises \<open>ZoneInfoNotFoundError\<close>.
\<close>

definition stored_zones_valid :: "env \<Rightarrow> database \<Rightarrow> bool" where
  "stored_zones_valid env db =
     list_all (\<lambda>r. tz_lookup env (snd r) = None
                   \<or> tz_lookup env (snd r) = Some ZoneInfoNotFoundError) (users db)"

text \<open>A message for one task of \<open>/list\<close>: the ones sent with a keyboard.\<close>

definition is_task_message :: "tg_call \<Rightarrow> bool" where
  "is_task_message c =
     (case c of
        send_message cid txt kb \<Rightarrow> kb \<noteq> None
      | reply_text txt \<Rightarrow> False
      | edit_message_text txt \<Rightarrow> False)"

text \<open>
  The message \<open>/list\<close> sends for one task, the notice that ends a cut list, and how many
  of the messages for some tasks Telegram accepts.
\<close>

definition task_message :: "int \<Rightarrow> zone \<Rightarrow> task_row \<Rightarrow> tg_call" where
  "task_message cid tz task =
     send_message cid (build_task_message_text task tz) (Some (build_task_keyboard (task_id task)))"

definition notice :: "int \<Rightarrow> tg_call" where
  "notice cid = send_message cid (Fmt ''...(First {max_show})'' [I (int max_show)]) None"

definition delivered :: "env \<Rightarrow> int \<Rightarrow> zone \<Rightarrow> task_row list \<Rightarrow> nat" where
  "delivered env cid tz ts = length (filter (\<lambda>t. telegram env (task_message cid tz t) = None) ts)"

section \<open>Example data\<close>

text \<open>
  The data of \<open>test_bot.py\<close>: user 12345 in chat 67890, zone \<open>Asia/Tashkent\<close>, the task
  "Submit thesis" due 2025-05-10 12:00 UTC. In \<open>env_ok\<close> it is ten minutes before that,
  SQLite and Telegram work, and \<open>ZoneInfo\<close> answers as CPython does for the keys used here:
  \<open>ValueError\<close> for the empty key, \<open>ZoneInfoNotFoundError\<close> for an unknown one. No text
  beyond ASCII counts as digits.
\<close>

definition tz_lookup_ok :: "string \<Rightarrow> exn option" where
  "tz_lookup_ok k =
     (if k = ''UTC'' \<or> k = ''Asia/Tashkent'' then None
      else if k = [] then Some ValueError
      else Some ZoneInfoNotFoundError)"

definition env_ok :: env where
  "env_ok = \<lparr>now_utc = 1746877800000000, tz_lookup = tz_lookup_ok,
             sqlite_error = (\<lambda>q. False), telegram = (\<lambda>c. None),
             dateparser_parse = (\<lambda>s z. Inr None),
             isdigit_beyond_ascii = (\<lambda>s. False), int_beyond_ascii = (\<lambda>s. Inl ValueError)\<rparr>"

definition thesis :: task_row where
  "thesis = \<lparr>task_id = 1, user_id = 12345, chat_id = 67890, description = ''Submit thesis'',
             due_date = Some 1746878400000000, status = ''pending'', added_date = 1746800000,
             notified_24h = False, notified_12h = False, notified_6h = False,
             notified_3h = False, notified_1h = False, notified_15m = False,
             notified_final_due = False\<rparr>"

definition milk :: task_row where
  "milk = \<lparr>task_id = 2, user_id = 12345, chat_id = 67890, description = ''Buy milk'',
           due_date = None, status = ''pending'', added_date = 1746800100,
           notified_24h = False, notified_12h = False, notified_6h = False,
           notified_3h = False, notified_1h = False, notified_15m = False,
           notified_final_due = False\<rparr>"

definition db_example :: database where
  "db_example = \<lparr>tasks = [thesis, milk], users = [(12345, ''Asia/Tashkent'')], seq = 2\<rparr>"

text \<open>The same task once completed, alone in the table.\<close>

definition db_done :: database where
  "db_done = \<lparr>tasks = [thesis\<lparr>status := ''done''\<rparr>], users = [(12345, ''Asia/Tashkent'')], seq = 1\<rparr>"

text \<open>
  A second task with a due date, in another chat, and an environment in which Telegram
  refuses every message to that chat.
\<close>

definition report :: task_row where
  "report = thesis\<lparr>task_id := 3, chat_id := 111, description := ''Send report''\<rparr>"

definition db_two :: database where
  "db_two = \<lparr>tasks = [thesis, milk, report], users = [(12345, ''Asia/Tashkent'')], seq = 3\<rparr>"

definition env_chat_down :: env where
  "env_chat_down =
     env_ok\<lparr>telegram :=
       (\<lambda>c. case c of
              send_message cid txt kb \<Rightarrow> if cid = 111 then Some TelegramError else None
            | reply_text txt \<Rightarrow> None
            | edit_message_text txt \<Rightarrow> None)\<rparr>"

text \<open>
  Three sweeps around the due time of the thesis: sixteen minutes before it, with every
  delivery failing; one minute before it; and fourteen minutes after it.
\<close>

definition env_16min_down :: env where
  "env_16min_down = env_ok\<lparr>now_utc := 1746877440000000, telegram := (\<lambda>c. Some TelegramError)\<rparr>"

definition env_1min :: env where
  "env_1min = env_ok\<lparr>now_utc := 1746878340000000\<rparr>"

definition env_overdue :: env where
  "env_overdue = env_ok\<lparr>now_utc := 1746879240000000\<rparr>"

text \<open>
  Twenty-one pending tasks of user 12345, numbered 1 to 21 in the order they were added,
  and an environment in which Telegram refuses the message for task 1 with \<open>BadRequest\<close>
  (as it does for a text it cannot parse) and delivers every other message.
\<close>

definition numbered :: "nat \<Rightarrow> task_row" where
  "numbered n = thesis\<lparr>task_id := int n, added_date := 1746800000 + int n\<rparr>"

definition db_many :: database where
  "db_many = \<lparr>tasks = map numbered [1..<22], users = [(12345, ''Asia/Tashkent'')], seq = 21\<rparr>"

definition env_first_refused :: env where
  "env_first_refused =
     env_ok\<lparr>telegram :=
       (\<lambda>c. case c of
              send_message cid txt kb \<Rightarrow>
                if txt = build_task_message_text (numbered 1) (Zone ''Asia/Tashkent'')
                then Some BadRequest else None
            | reply_text txt \<Rightarrow> None
            | edit_message_text txt \<Rightarrow> None)\<rparr>"

section \<open>Basic facts\<close>

lemma sorted_intervals_eq:
  "sorted_intervals =
     [(''notified_15m'', timedelta 0 15 0, ''in less than 15 minutes''),
      (''notified_1h'', timedelta 1 0 0, ''in less than 1 hour''),
      (''notified_3h'', timedelta 3 0 0, ''in less than 3 hours''),
      (''notified_6h'', timedelta 6 0 0, ''in less than 6 hours''),
      (''notified_12h'', timedelta 12 0 0, ''in less than 12 hours''),
      (''notified_24h'', timedelta 24 0 0, ''in less than 24 hours'')]"
  by (simp add: sorted_intervals_def NOTIFICATION_INTERVALS_def final_key_def timedelta_def)

lemma set_flag_fields [simp]:
  "task_id (set_flag k t) = task_id t" "user_id (set_flag k t) = user_id t"
  "chat_id (set_flag k t) = chat_id t" "description (set_flag k t) = description t"
  "due_date (set_flag k t) = due_date t" "status (set_flag k t) = status t"
  "added_date (set_flag k t) = added_date t"
  by (simp_all add: set_flag_def)

lemma flag_set_flag:
  "k \<in> set NOTIFICATION_INTERVAL_KEYS \<Longrightarrow> flag (set_flag k t) k' = (k' = k \<or> flag t k')"
  by (auto simp: flag_def set_flag_def NOTIFICATION_INTERVAL_KEYS_def)

lemma fired_set_flag:
  "k \<in> set NOTIFICATION_INTERVAL_KEYS \<Longrightarrow>
   fired_thresholds (set_flag k t) = insert k (fired_thresholds t)"
  by (auto simp: fired_thresholds_def flag_set_flag)

section \<open>The mark of a notification flag\<close>

text \<open>
  Claim C4, as the code has it. For a valid interval key,
  \<open>mark_specific_notification_sent\<close> returns true exactly when SQLite raised no error and a
  row with that id is in the table, whatever its status: the statement has no condition on
  \<open>status\<close>. When no row has the id, the update touches no row, the database is as before
  and the result is false; nothing is raised.
\<close>

theorem mark_specific_notification_sent_result:
  "interval_key \<in> set NOTIFICATION_INTERVAL_KEYS \<Longrightarrow>
     snd (mark_specific_notification_sent err db tid interval_key)
       = (\<not> err \<and> (\<exists>t \<in> set (tasks db). task_id t = tid))
   \<and> ((\<forall>t \<in> set (tasks db). task_id t \<noteq> tid) \<longrightarrow>
         fst (mark_specific_notification_sent err db tid interval_key) = db)"
proof (intro conjI impI)
  assume k: "interval_key \<in> set NOTIFICATION_INTERVAL_KEYS"
  show "snd (mark_specific_notification_sent err db tid interval_key)
       = (\<not> err \<and> (\<exists>t \<in> set (tasks db). task_id t = tid))"
    using k by (auto simp: mark_specific_notification_sent_def Let_def filter_empty_conv)
next
  assume none: "\<forall>t \<in> set (tasks db). task_id t \<noteq> tid"
  have "map (\<lambda>t. if task_id t = tid then set_flag interval_key t else t) (tasks db) = tasks db"
    by (rule map_idI) (use none in auto)
  then show "fst (mark_specific_notification_sent err db tid interval_key) = db"
    by (simp add: mark_specific_notification_sent_def Let_def)
qed

theorem mark_specific_notification_sent_result_witness:
  "''notified_1h'' \<in> set NOTIFICATION_INTERVAL_KEYS
   \<and> snd (mark_specific_notification_sent False db_example 1 ''notified_1h'')
   \<and> \<not> snd (mark_specific_notification_sent False db_example 7 ''notified_1h'')
   \<and> fst (mark_specific_notification_sent False db_example 7 ''notified_1h'') = db_example"
proof -
  have k: "''notified_1h'' \<in> set NOTIFICATION_INTERVAL_KEYS"
    by (simp add: NOTIFICATION_INTERVAL_KEYS_def)
  show ?thesis
    using k mark_specific_notification_sent_result [OF k, of False db_example 1]
      mark_specific_notification_sent_result [OF k, of False db_example 7]
    by (simp add: db_example_def thesis_def milk_def)
qed

text \<open>
  The claim as stated asks for a pending task. In \<open>db_done\<close> the only task, with id 1, is
  done, and the mark of one of its flags still returns true.
\<close>

theorem mark_of_done_task_counterexample:
  "snd (mark_specific_notification_sent False db_done 1 ''notified_1h'')
   \<and> map task_id (tasks db_done) = [1] \<and> map status (tasks db_done) = [''done'']"
  by (simp add: mark_specific_notification_sent_def NOTIFICATION_INTERVAL_KEYS_def
      db_done_def thesis_def)

section \<open>The notification job, row by row\<close>

lemma mark_tasks:
  "tasks (fst (mark_specific_notification_sent err db tid k))
     = map (\<lambda>t. if task_id t = tid \<and> \<not> err \<and> k \<in> set NOTIFICATION_INTERVAL_KEYS
                then set_flag k t else t) (tasks db)"
  "users (fst (mark_specific_notification_sent err db tid k)) = users db"
  "seq (fst (mark_specific_notification_sent err db tid k)) = seq db"
  by (simp_all add: mark_specific_notification_sent_def Let_def)

lemma sorted_intervals_keys:
  "i \<in> set sorted_intervals \<Longrightarrow> fst i \<in> set NOTIFICATION_INTERVAL_KEYS \<and> fst i \<noteq> final_key
     \<and> i \<in> set NOTIFICATION_INTERVALS"
  by (auto simp: sorted_intervals_eq NOTIFICATION_INTERVAL_KEYS_def final_key_def NOTIFICATION_INTERVALS_def)

lemma final_key_valid: "final_key \<in> set NOTIFICATION_INTERVAL_KEYS"
  by (simp add: final_key_def NOTIFICATION_INTERVAL_KEYS_def)

lemma map_of_final:
  "map_of NOTIFICATION_INTERVALS final_key = Some (timedelta 0 0 0, ''NOW or is OVERDUE'')"
  by (simp add: NOTIFICATION_INTERVALS_def final_key_def)

lemma timedelta_zero: "timedelta 0 0 0 = 0"
  by (simp add: timedelta_def)

lemma scan_intervals_find:
  "scan_intervals env db task tz due_utc remain ivs =
     (case find (\<lambda>i. remain \<le> fst (snd i) \<and> \<not> flag task (fst i)) ivs of
        None \<Rightarrow> (db, [])
      | Some i \<Rightarrow> notify env db (chat_id task) (reminder_msg (snd (snd i)) task due_utc tz)
                    (task_id task) (fst i))"
  by (induction ivs) auto

lemma selected_key:
  assumes "selected env f = Some (k, call)"
  shows "k \<in> set NOTIFICATION_INTERVAL_KEYS \<and> \<not> flag (fst f) k"
  using assms
  by (auto simp: selected_def Let_def final_key_valid find_Some_iff
      split: option.splits if_splits dest!: nth_mem [THEN sorted_intervals_keys])

lemma check_task_selected:
  "check_task env db f =
     (case selected env f of
        None \<Rightarrow> (db, [])
      | Some (k, call) \<Rightarrow>
          (if telegram env call = None
           then fst (mark_specific_notification_sent
                       (sqlite_error env (Q_mark_specific_notification_sent (task_id (fst f)) k))
                       db (task_id (fst f)) k)
           else db, [call]))"
  by (auto simp: check_task_def selected_def Let_def scan_intervals_find map_of_final
      timedelta_zero notify_def split: option.splits)

lemma commit_fields [simp]:
  "task_id (commit env f t) = task_id t" "due_date (commit env f t) = due_date t"
  "status (commit env f t) = status t" "user_id (commit env f t) = user_id t"
  by (simp_all add: commit_def split: option.splits)

lemma committed_key: "committed env f = Some k \<Longrightarrow> k \<in> set NOTIFICATION_INTERVAL_KEYS"
  by (auto simp: committed_def split: option.splits if_splits dest: selected_key)

lemma check_task_tasks:
  "tasks (fst (check_task env db f)) = map (commit env f) (tasks db)"
  "users (fst (check_task env db f)) = users db"
  "seq (fst (check_task env db f)) = seq db"
proof -
  show "tasks (fst (check_task env db f)) = map (commit env f) (tasks db)"
    by (auto simp: check_task_selected mark_tasks commit_def committed_def
        split: option.splits dest: selected_key intro!: map_idI [symmetric])
  show "users (fst (check_task env db f)) = users db"
    by (simp add: check_task_selected mark_tasks split: option.splits)
  show "seq (fst (check_task env db f)) = seq db"
    by (simp add: check_task_selected mark_tasks split: option.splits)
qed

lemma check_task_calls:
  "snd (check_task env db f) = (case selected env f of None \<Rightarrow> [] | Some (k, call) \<Rightarrow> [call])"
  by (simp add: check_task_selected split: option.splits)

lemma for_each_task_tasks:
  "tasks (fst (for_each_task env fs db)) = map (\<lambda>t. fold (commit env) fs t) (tasks db)"
  by (induction fs arbitrary: db) (simp_all add: Let_def check_task_tasks)

lemma for_each_task_rest:
  "users (fst (for_each_task env fs db)) = users db"
  "seq (fst (for_each_task env fs db)) = seq db"
  by (induction fs arbitrary: db) (simp_all add: Let_def check_task_tasks)

lemma for_each_task_calls:
  "snd (for_each_task env fs db) = concat (map (\<lambda>f. snd (check_task env db f)) fs)"
  by (induction fs arbitrary: db) (simp_all add: Let_def check_task_calls)

lemma check_deadlines_for_each:
  "check_deadlines env db =
     for_each_task env (get_pending_tasks_with_due_dates
                          (sqlite_error env Q_get_pending_tasks_with_due_dates) db) db"
  by (simp add: check_deadlines_def Let_def)

lemma fold_commit_id [simp]: "task_id (fold (commit env) fs t) = task_id t"
  by (induction fs arbitrary: t) simp_all

lemma fold_commit_other:
  "task_id t \<notin> (\<lambda>f. task_id (fst f)) ` set fs \<Longrightarrow> fold (commit env) fs t = t"
  by (induction fs arbitrary: t) (auto simp: commit_def)

lemma fold_commit_one:
  "distinct (map (\<lambda>f. task_id (fst f)) fs) \<Longrightarrow> f \<in> set fs \<Longrightarrow> task_id (fst f) = task_id t
   \<Longrightarrow> fold (commit env) fs t = commit env f t"
proof (induction fs arbitrary: t)
  case Nil
  then show ?case by simp
next
  case (Cons g fs)
  show ?case
  proof (cases "g = f")
    case True
    then have "task_id (commit env f t) \<notin> (\<lambda>f. task_id (fst f)) ` set fs"
      using Cons.prems by auto
    then show ?thesis using True by (simp add: fold_commit_other)
  next
    case False
    then have "f \<in> set fs" using Cons.prems by simp
    moreover have "task_id (fst g) \<noteq> task_id t" using Cons.prems False \<open>f \<in> set fs\<close> by force
    then have "commit env g t = t" by (simp add: commit_def)
    ultimately show ?thesis using Cons by simp
  qed
qed

lemma fired_commit: "fired_thresholds t \<subseteq> fired_thresholds (commit env f t)"
  by (auto simp: commit_def fired_set_flag split: option.splits dest: committed_key)

lemma fired_fold_commit: "fired_thresholds t \<subseteq> fired_thresholds (fold (commit env) fs t)"
proof (induction fs arbitrary: t)
  case Nil
  show ?case by simp
next
  case (Cons f fs)
  have "fired_thresholds t \<subseteq> fired_thresholds (commit env f t)" by (rule fired_commit)
  also have "\<dots> \<subseteq> fired_thresholds (fold (commit env) fs (commit env f t))" by (rule Cons.IH)
  finally show ?case by simp
qed

lemma fetched_ids:
  "map (\<lambda>f. task_id (fst f)) (get_pending_tasks_with_due_dates err db)
     = map task_id (filter (\<lambda>t. \<not> err \<and> status t = ''pending'' \<and> due_date t \<noteq> None) (tasks db))"
  by (simp add: get_pending_tasks_with_due_dates_def comp_def)

lemma fetched_rows:
  "f \<in> set (get_pending_tasks_with_due_dates err db) \<Longrightarrow>
     fst f \<in> set (tasks db) \<and> status (fst f) = ''pending'' \<and> due_date (fst f) \<noteq> None"
  by (auto simp: get_pending_tasks_with_due_dates_def split: if_splits)

lemma fetched_distinct:
  "distinct (map task_id (tasks db)) \<Longrightarrow>
   distinct (map (\<lambda>f. task_id (fst f)) (get_pending_tasks_with_due_dates err db))"
  by (simp add: fetched_ids distinct_map_filter)

section \<open>The order of a task list\<close>

lemma get_user_tasks_sorted: "sorted (map order_by (get_user_tasks err db uid st))"
  by (simp add: get_user_tasks_def)

lemma order_by_le:
  "order_by a \<le> order_by b \<Longrightarrow>
     (case due_date a of None \<Rightarrow> True
      | Some x \<Rightarrow> (case due_date b of None \<Rightarrow> False | Some y \<Rightarrow> x \<le> y))
     \<and> (due_date a = due_date b \<longrightarrow> added_date a \<le> added_date b)"
  by (auto simp: order_by_def less_eq_prod_def less_eq_option_def less_option_def
      split: option.splits)

lemma get_user_tasks_mset:
  "mset (get_user_tasks False db uid st)
     = mset (filter (\<lambda>t. user_id t = uid \<and> status t = st) (tasks db))"
  by (simp add: get_user_tasks_def)

lemma get_user_tasks_nth:
  assumes "i < j \<and> j < length (get_user_tasks err db uid st)"
  shows "(case due_date (get_user_tasks err db uid st ! i) of
            None \<Rightarrow> True
          | Some x \<Rightarrow> (case due_date (get_user_tasks err db uid st ! j) of
                         None \<Rightarrow> False | Some y \<Rightarrow> x \<le> y))
         \<and> (due_date (get_user_tasks err db uid st ! i) = due_date (get_user_tasks err db uid st ! j)
              \<longrightarrow> added_date (get_user_tasks err db uid st ! i)
                    \<le> added_date (get_user_tasks err db uid st ! j))"
proof -
  let ?r = "get_user_tasks err db uid st"
  have "sorted (map order_by ?r)" by (rule get_user_tasks_sorted)
  then have "map order_by ?r ! i \<le> map order_by ?r ! j"
    using assms by (intro sorted_nth_mono) auto
  then have "order_by (?r ! i) \<le> order_by (?r ! j)"
    using assms by simp
  then show ?thesis by (rule order_by_le)
qed

lemma get_user_tasks_stable:
  "filter (\<lambda>t. order_by t = k) (get_user_tasks False db uid st)
     = filter (\<lambda>t. order_by t = k) (filter (\<lambda>t. user_id t = uid \<and> status t = st) (tasks db))"
  by (simp only: get_user_tasks_def if_False sort_key_stable)

lemma list_tasks_logic_lines:
  "uid \<noteq> 0 \<and> get_user_tz env db uid = Inr tz \<and> \<not> sqlite_error env (Q_get_user_tasks uid st)
     \<and> get_user_tasks False db uid st \<noteq> [] \<longrightarrow>
   list_tasks_logic env db uid st
     = Inr (Fmt ''OK. Your {status_filter} tasks (Times in {user_tz.key}):{formatted_list}''
             [S st, S (key tz), L (map (\<lambda>task. list_line task tz) (get_user_tasks False db uid st))])"
  by (simp add: list_tasks_logic_def Let_def)

text \<open>
  Claim C5, as the code has it. \<open>get_user_tasks\<close> returns exactly the rows of the owner with
  the status asked for. Of two rows of the result, the earlier one has no due date, or both
  have one and the earlier row's is not the later; so the tasks without a due date come
  first, not last. Rows with the same due date are in the order of \<open>added_date\<close>, and rows
  equal on both are in the order of the table. \<open>list_tasks_logic\<close> puts one line for each
  row of that result, in that order, into one message.
\<close>

theorem get_user_tasks_order:
  "mset (get_user_tasks False db uid st)
     = mset (filter (\<lambda>t. user_id t = uid \<and> status t = st) (tasks db))
   \<and> (\<forall>i j. i < j \<and> j < length (get_user_tasks False db uid st) \<longrightarrow>
         (case due_date (get_user_tasks False db uid st ! i) of
            None \<Rightarrow> True
          | Some x \<Rightarrow> (case due_date (get_user_tasks False db uid st ! j) of
                         None \<Rightarrow> False | Some y \<Rightarrow> x \<le> y))
         \<and> (due_date (get_user_tasks False db uid st ! i) = due_date (get_user_tasks False db uid st ! j)
              \<longrightarrow> added_date (get_user_tasks False db uid st ! i)
                    \<le> added_date (get_user_tasks False db uid st ! j)))
   \<and> (\<forall>k. filter (\<lambda>t. order_by t = k) (get_user_tasks False db uid st)
            = filter (\<lambda>t. order_by t = k)
                (filter (\<lambda>t. user_id t = uid \<and> status t = st) (tasks db)))
   \<and> (uid \<noteq> 0 \<and> get_user_tz env db uid = Inr tz \<and> \<not> sqlite_error env (Q_get_user_tasks uid st)
        \<and> get_user_tasks False db uid st \<noteq> [] \<longrightarrow>
      list_tasks_logic env db uid st
        = Inr (Fmt ''OK. Your {status_filter} tasks (Times in {user_tz.key}):{formatted_list}''
                [S st, S (key tz),
                 L (map (\<lambda>task. list_line task tz) (get_user_tasks False db uid st))]))"
  by (intro conjI allI)
     (rule get_user_tasks_mset, rule impI, erule get_user_tasks_nth,
      rule get_user_tasks_stable, rule list_tasks_logic_lines)

lemma get_user_tasks_example:
  "get_user_tasks False db_example 12345 ''pending'' = [milk, thesis]"
  by (simp add: get_user_tasks_def db_example_def thesis_def milk_def order_by_def
      less_eq_prod_def)

lemma get_user_tz_example: "get_user_tz env_ok db_example 12345 = Inr (Zone ''Asia/Tashkent'')"
  by (simp add: get_user_tz_def get_user_timezone_str_def env_ok_def db_example_def
      tz_lookup_ok_def)

theorem get_user_tasks_order_witness:
  "(0::nat) < 1 \<and> 1 < length (get_user_tasks False db_example 12345 ''pending'')
   \<and> (case due_date (get_user_tasks False db_example 12345 ''pending'' ! 0) of
         None \<Rightarrow> True
       | Some x \<Rightarrow> (case due_date (get_user_tasks False db_example 12345 ''pending'' ! 1) of
                      None \<Rightarrow> False | Some y \<Rightarrow> x \<le> y))
   \<and> mset (get_user_tasks False db_example 12345 ''pending'') = mset [thesis, milk]
   \<and> list_tasks_logic env_ok db_example 12345 ''pending''
       = Inr (Fmt ''OK. Your {status_filter} tasks (Times in {user_tz.key}):{formatted_list}''
               [S ''pending'', S ''Asia/Tashkent'',
                L (map (\<lambda>task. list_line task (Zone ''Asia/Tashkent''))
                     (get_user_tasks False db_example 12345 ''pending''))])"
proof -
  have len: "(0::nat) < 1 \<and> 1 < length (get_user_tasks False db_example 12345 ''pending'')"
    by (simp add: get_user_tasks_example)
  have fl: "filter (\<lambda>t. user_id t = 12345 \<and> status t = ''pending'') (tasks db_example)
              = [thesis, milk]"
    by (simp add: db_example_def thesis_def milk_def)
  have pre: "(12345::int) \<noteq> 0 \<and> get_user_tz env_ok db_example 12345 = Inr (Zone ''Asia/Tashkent'')
      \<and> \<not> sqlite_error env_ok (Q_get_user_tasks 12345 ''pending'')
      \<and> get_user_tasks False db_example 12345 ''pending'' \<noteq> []"
    by (simp add: get_user_tz_example get_user_tasks_example) (simp add: env_ok_def)
  have k: "key (Zone ''Asia/Tashkent'') = ''Asia/Tashkent''" by simp
  note t = get_user_tasks_order [of db_example 12345 "''pending''" env_ok "Zone ''Asia/Tashkent''",
      unfolded fl k]
  have m: "mset (get_user_tasks False db_example 12345 ''pending'') = mset [thesis, milk]"
    using t by (rule conjunct1)
  have o: "case due_date (get_user_tasks False db_example 12345 ''pending'' ! 0) of
         None \<Rightarrow> True
       | Some x \<Rightarrow> (case due_date (get_user_tasks False db_example 12345 ''pending'' ! 1) of
                      None \<Rightarrow> False | Some y \<Rightarrow> x \<le> y)"
    using t [THEN conjunct2, THEN conjunct1, THEN spec, THEN spec, THEN mp, OF len]
    by (rule conjunct1)
  have l: "list_tasks_logic env_ok db_example 12345 ''pending''
       = Inr (Fmt ''OK. Your {status_filter} tasks (Times in {user_tz.key}):{formatted_list}''
               [S ''pending'', S ''Asia/Tashkent'',
                L (map (\<lambda>task. list_line task (Zone ''Asia/Tashkent''))
                     (get_user_tasks False db_example 12345 ''pending''))])"
    using t [THEN conjunct2, THEN conjunct2, THEN conjunct2, THEN mp, OF pre] .
  show ?thesis
    by (intro conjI) (rule len [THEN conjunct1], rule len [THEN conjunct2], rule o, rule m, rule l)
qed

text \<open>
  The claim as stated has the tasks without a due date last. In \<open>db_example\<close> the task
  with id 1 has a due date and the task with id 2 has none; the list has id 2 first.
\<close>

theorem no_due_date_first_counterexample:
  "map task_id (get_user_tasks False db_example 12345 ''pending'') = [2, 1]
   \<and> map due_date (get_user_tasks False db_example 12345 ''pending'')
       = [None, Some 1746878400000000]"
  by (simp add: get_user_tasks_example) (simp add: thesis_def milk_def)

section \<open>Adding a task\<close>

text \<open>
  Claim C6, as the code has it. \<open>add_task_logic\<close> checks only that the owner and the
  conversation are given: with either id missing (0) it returns "Error: Missing context."
  and leaves the database as it is. The description is not checked: with both ids given,
  the zone resolved and no storage error, an empty description is stored as a new pending
  row with no flag set.
\<close>

theorem add_task_logic_validation:
  "(uid = 0 \<or> cid = 0 \<longrightarrow>
      add_task_logic env db desc due uid cid = (db, Inr (Fmt ''Error: Missing context.'' [])))
   \<and> (uid \<noteq> 0 \<and> cid \<noteq> 0 \<and> get_user_tz env db uid = Inr tz
        \<and> \<not> sqlite_error env (Q_add_task uid) \<longrightarrow>
        (\<exists>row. tasks (fst (add_task_logic env db [] due uid cid)) = tasks db @ [row]
               \<and> description row = [] \<and> user_id row = uid \<and> chat_id row = cid
               \<and> status row = ''pending'' \<and> fired_thresholds row = {}))"
  by (auto simp: add_task_logic_def add_task_def Let_def fired_thresholds_def flag_def
      split: option.splits sum.splits)

theorem add_task_logic_validation_witness:
  "add_task_logic env_ok db_example ''Submit thesis'' None 0 67890
     = (db_example, Inr (Fmt ''Error: Missing context.'' []))
   \<and> (\<exists>row. tasks (fst (add_task_logic env_ok db_example [] None 12345 67890))
               = tasks db_example @ [row]
            \<and> description row = [] \<and> user_id row = 12345 \<and> chat_id row = 67890
            \<and> status row = ''pending'' \<and> fired_thresholds row = {})"
proof -
  have pre: "(12345::int) \<noteq> 0 \<and> (67890::int) \<noteq> 0
      \<and> get_user_tz env_ok db_example 12345 = Inr (Zone ''Asia/Tashkent'')
      \<and> \<not> sqlite_error env_ok (Q_add_task 12345)"
    by (simp add: get_user_tz_example) (simp add: env_ok_def)
  have zero: "(0::int) = 0 \<or> (67890::int) = 0" by simp
  show ?thesis
    by (intro conjI)
       (rule add_task_logic_validation [where uid = 0 and cid = 67890, THEN conjunct1,
          THEN mp, OF zero],
        rule add_task_logic_validation [where uid = 12345 and cid = 67890, THEN conjunct2,
          THEN mp, OF pre])
qed

text \<open>
  The claim as stated has an empty description rejected with no state change. For user
  12345 in chat 67890 the empty description is stored as task 3 and confirmed.
\<close>

theorem empty_description_counterexample:
  "map description (tasks (fst (add_task_logic env_ok db_example [] None 12345 67890)))
     = [''Submit thesis'', ''Buy milk'', []]
   \<and> snd (add_task_logic env_ok db_example [] None 12345 67890)
     = Inr (Fmt ''Okay, I've added task '{description}' (ID: {task_id}).{}''
             [S [], I 3, S '' No due date was set.''])"
  by (simp add: add_task_logic_def get_user_tz_example add_task_def Let_def)
     (simp add: env_ok_def db_example_def thesis_def milk_def)

section \<open>Resolving the zone of a user\<close>













section \<open>Completing a task by button and by command\<close>

lemma py_int_1: "py_int ''1'' = Inr 1"
  by (simp add: py_int_def strip_def is_space_def int_literal_def is_digit_def
      int_of_digits_def)

lemma split_colon_done_1: "split_colon ''done:1'' = Some (''done'', ''1'')"
  by (simp add: split_colon_def)

lemma int_of_str_1: "int_of_str env ''1'' = Inr 1"
  by (simp add: int_of_str_def is_ascii_def py_int_1)

lemma str_isdigit_1: "str_isdigit env ''1''"
  by (simp add: str_isdigit_def is_ascii_def isdigit_def is_digit_def)

lemma fits_int64_1: "fits_int64 1"
  by (simp add: fits_int64_def)

lemma button_callback_done:
  "get_user_tz env db uid = Inr tz \<Longrightarrow> split_colon s = Some (''done'', n)
   \<Longrightarrow> int_of_str env n = Inr tid \<Longrightarrow> fits_int64 tid
   \<Longrightarrow> get_task_by_id (sqlite_error env (Q_get_task_by_id tid uid)) db tid uid = Some task
   \<Longrightarrow> button_callback env db (Some s) uid = (db, [], Some (NameError ''tid''))"
  by (simp add: button_callback_def)

text \<open>
  Claim C2 at the task of the tests. The button "Done" of task 1 carries the data
  \<open>done:1\<close>. \<open>button_callback\<close> finds the pending task of user 12345 and then raises
  \<open>NameError\<close>: the database is as before, the task still pending, and the message is not
  edited. The command \<open>/done 1\<close> on the same database marks the task done.
\<close>

theorem button_callback_done_raises:
  "button_callback env_ok db_example (Some (snd (hd (build_task_keyboard 1)))) 12345
     = (db_example, [], Some (NameError ''tid''))
   \<and> map status (tasks db_example) = [''pending'', ''pending'']
   \<and> map status (tasks (fst (done_task_command env_ok db_example [''1''] 12345)))
       = [''done'', ''pending'']"
proof -
  have kb: "snd (hd (build_task_keyboard 1)) = ''done:1''"
    by (simp add: build_task_keyboard_def str_int_def)
  have "button_callback env_ok db_example (Some ''done:1'') 12345
          = (db_example, [], Some (NameError ''tid''))"
    by (rule button_callback_done
          [OF get_user_tz_example split_colon_done_1 int_of_str_1 fits_int64_1])
       (simp add: get_task_by_id_def env_ok_def db_example_def thesis_def)
  moreover have "map status (tasks db_example) = [''pending'', ''pending'']"
    by (simp add: db_example_def thesis_def milk_def)
  moreover have "map status (tasks (fst (done_task_command env_ok db_example [''1''] 12345)))
       = [''done'', ''pending'']"
    by (simp add: done_task_command_def str_isdigit_1 int_of_str_1 fits_int64_1)
       (simp add: get_task_by_id_def env_ok_def db_example_def thesis_def milk_def
          update_task_status_def reply_def Let_def)
  ultimately show ?thesis by (simp add: kb)
qed

section \<open>The interval the job chooses\<close>

lemma find_sorted_least:
  "sorted (map f xs) \<Longrightarrow> find P xs = Some x \<Longrightarrow> y \<in> set xs \<Longrightarrow> P y \<Longrightarrow> f x \<le> f y"
  by (induction xs) (auto split: if_splits)

lemma sorted_intervals_sorted: "sorted (map (\<lambda>i. fst (snd i)) sorted_intervals)"
  by (simp add: sorted_intervals_def)

lemma intervals_split:
  "i \<in> set NOTIFICATION_INTERVALS \<Longrightarrow>
     i \<in> set sorted_intervals \<or> i = (final_key, 0, ''NOW or is OVERDUE'')"
  by (auto simp: sorted_intervals_eq NOTIFICATION_INTERVALS_def final_key_def timedelta_def)

lemma selected_future:
  assumes "due_date task = Some due" and "now_utc env < due"
  shows "selected env (task, tz_str) =
     (case find (\<lambda>i. due - now_utc env \<le> fst (snd i) \<and> \<not> flag task (fst i)) sorted_intervals of
        None \<Rightarrow> None
      | Some i \<Rightarrow>
          Some (fst i,
                send_message (chat_id task)
                  (reminder_msg (snd (snd i)) task due
                     (case tz_lookup env tz_str of None \<Rightarrow> Zone tz_str | Some e \<Rightarrow> UTC)) None))"
  using assms by (simp add: selected_def Let_def cong: option.case_cong)

text \<open>
  Claim C1, as the code has it. For a task whose due date is in the future the job sends at
  most one message, a reminder. The interval it names is one of \<open>NOTIFICATION_INTERVALS\<close>
  whose flag is not set in the fetched row and whose offset is at least the time that
  remains, and among the seven intervals with these two properties its offset is the
  smallest: the loop runs over the intervals sorted by increasing offset and stops at the
  first match. When no message is sent, no interval has the two properties.
\<close>

theorem check_task_one_reminder:
  assumes "due_date task = Some due" and "now_utc env < due"
  shows "length (snd (check_task env db (task, tz_str))) \<le> 1
     \<and> (\<forall>call \<in> set (snd (check_task env db (task, tz_str))).
          \<exists>k d label.
            (k, d, label) \<in> set NOTIFICATION_INTERVALS
            \<and> call = send_message (chat_id task)
                       (reminder_msg label task due
                          (case tz_lookup env tz_str of None \<Rightarrow> Zone tz_str | Some e \<Rightarrow> UTC))
                       None
            \<and> \<not> flag task k \<and> due - now_utc env \<le> d
            \<and> (\<forall>(k', d', label') \<in> set NOTIFICATION_INTERVALS.
                  \<not> flag task k' \<and> due - now_utc env \<le> d' \<longrightarrow> d \<le> d'))
     \<and> (snd (check_task env db (task, tz_str)) = [] \<longrightarrow>
          (\<forall>(k, d, label) \<in> set NOTIFICATION_INTERVALS. flag task k \<or> d < due - now_utc env))"
proof (cases "find (\<lambda>i. due - now_utc env \<le> fst (snd i) \<and> \<not> flag task (fst i)) sorted_intervals")
  case None
  have no: "\<forall>i \<in> set sorted_intervals. flag task (fst i) \<or> fst (snd i) < due - now_utc env"
  proof
    fix i
    assume mem: "i \<in> set sorted_intervals"
    from None [unfolded find_None_iff] mem have "\<not> (due - now_utc env \<le> fst (snd i) \<and> \<not> flag task (fst i))"
      by blast
    then show "flag task (fst i) \<or> fst (snd i) < due - now_utc env"
      by linarith
  qed
  have "snd (check_task env db (task, tz_str)) = []"
    by (simp add: check_task_calls selected_future [OF assms] None)
  moreover have "\<forall>(k, d, label) \<in> set NOTIFICATION_INTERVALS. flag task k \<or> d < due - now_utc env"
    using no assms(2) intervals_split by fastforce
  ultimately show ?thesis by simp
next
  case (Some i)
  let ?P = "\<lambda>i. due - now_utc env \<le> fst (snd i) \<and> \<not> flag task (fst i)"
  obtain k d label where i: "i = (k, d, label)" by (cases i) auto
  have mem: "i \<in> set sorted_intervals" and Pi: "?P i"
    using Some by (auto simp: find_Some_iff)
  have calls: "snd (check_task env db (task, tz_str)) =
      [send_message (chat_id task)
         (reminder_msg label task due
            (case tz_lookup env tz_str of None \<Rightarrow> Zone tz_str | Some e \<Rightarrow> UTC)) None]"
    by (simp add: check_task_calls selected_future [OF assms] Some i)
  have least: "\<forall>(k', d', label') \<in> set NOTIFICATION_INTERVALS.
                  \<not> flag task k' \<and> due - now_utc env \<le> d' \<longrightarrow> d \<le> d'"
  proof (clarify)
    fix k' d' label'
    assume in': "(k', d', label') \<in> set NOTIFICATION_INTERVALS"
      and nf: "\<not> flag task k'" and le: "due - now_utc env \<le> d'"
    from intervals_split [OF in'] show "d \<le> d'"
    proof
      assume "(k', d', label') \<in> set sorted_intervals"
      from find_sorted_least [OF sorted_intervals_sorted Some this] nf le
      show ?thesis by (simp add: i)
    next
      assume "(k', d', label') = (final_key, 0, ''NOW or is OVERDUE'')"
      then show ?thesis using le assms(2) by simp
    qed
  qed
  have inN: "(k, d, label) \<in> set NOTIFICATION_INTERVALS"
    using sorted_intervals_keys [OF mem] by (simp add: i)
  let ?c = "send_message (chat_id task)
         (reminder_msg label task due
            (case tz_lookup env tz_str of None \<Rightarrow> Zone tz_str | Some e \<Rightarrow> UTC)) None"
  have ex: "\<exists>k d label'.
            (k, d, label') \<in> set NOTIFICATION_INTERVALS
            \<and> ?c = send_message (chat_id task)
                       (reminder_msg label' task due
                          (case tz_lookup env tz_str of None \<Rightarrow> Zone tz_str | Some e \<Rightarrow> UTC))
                       None
            \<and> \<not> flag task k \<and> due - now_utc env \<le> d
            \<and> (\<forall>(k', d', label') \<in> set NOTIFICATION_INTERVALS.
                  \<not> flag task k' \<and> due - now_utc env \<le> d' \<longrightarrow> d \<le> d')"
    apply (rule exI [of _ k], rule exI [of _ d], rule exI [of _ label])
    using Pi least inN unfolding i by simp
  show ?thesis
    unfolding calls
  proof (intro conjI)
    show "length [?c] \<le> 1" by simp
  next
    show "\<forall>call \<in> set [?c].
          \<exists>k d label.
            (k, d, label) \<in> set NOTIFICATION_INTERVALS
            \<and> call = send_message (chat_id task)
                       (reminder_msg label task due
                          (case tz_lookup env tz_str of None \<Rightarrow> Zone tz_str | Some e \<Rightarrow> UTC))
                       None
            \<and> \<not> flag task k \<and> due - now_utc env \<le> d
            \<and> (\<forall>(k', d', label') \<in> set NOTIFICATION_INTERVALS.
                  \<not> flag task k' \<and> due - now_utc env \<le> d' \<longrightarrow> d \<le> d')"
    proof
      fix call
      assume "call \<in> set [?c]"
      then have c: "call = ?c" by simp
      show "\<exists>k d label.
            (k, d, label) \<in> set NOTIFICATION_INTERVALS
            \<and> call = send_message (chat_id task)
                       (reminder_msg label task due
                          (case tz_lookup env tz_str of None \<Rightarrow> Zone tz_str | Some e \<Rightarrow> UTC))
                       None
            \<and> \<not> flag task k \<and> due - now_utc env \<le> d
            \<and> (\<forall>(k', d', label') \<in> set NOTIFICATION_INTERVALS.
                  \<not> flag task k' \<and> due - now_utc env \<le> d' \<longrightarrow> d \<le> d')"
        unfolding c by (rule ex)
    qed
  next
    show "[?c] = [] \<longrightarrow>
          (\<forall>(k, d, label) \<in> set NOTIFICATION_INTERVALS. flag task k \<or> d < due - now_utc env)"
      by simp
  qed
qed

lemma check_task_thesis:
  "snd (check_task env_ok db_example (thesis, ''Asia/Tashkent''))
     = [send_message 67890
          (reminder_msg ''in less than 15 minutes'' thesis 1746878400000000 (Zone ''Asia/Tashkent''))
          None]"
  by (simp add: check_task_calls selected_def sorted_intervals_eq Let_def
      thesis_def env_ok_def tz_lookup_ok_def timedelta_def flag_def)

theorem check_task_one_reminder_witness:
  "due_date thesis = Some 1746878400000000 \<and> now_utc env_ok < 1746878400000000
   \<and> length (snd (check_task env_ok db_example (thesis, ''Asia/Tashkent''))) \<le> 1"
proof -
  have d: "due_date thesis = Some 1746878400000000" by (simp add: thesis_def)
  have n: "now_utc env_ok < 1746878400000000" by (simp add: env_ok_def)
  show ?thesis
    by (intro conjI)
       (rule d, rule n, rule check_task_one_reminder [OF d n, THEN conjunct1])
qed

text \<open>
  The claim as stated has the largest offset chosen. Ten minutes before the due time, with
  no flag set, the 24 hour interval is not fired and its offset is at least the remaining
  time, yet the one message sent is the 15 minute reminder, whose offset is smaller.
\<close>

theorem smallest_not_largest_counterexample:
  "snd (check_task env_ok db_example (thesis, ''Asia/Tashkent''))
     = [send_message 67890
          (reminder_msg ''in less than 15 minutes'' thesis 1746878400000000 (Zone ''Asia/Tashkent''))
          None]
   \<and> (''notified_15m'', timedelta 0 15 0, ''in less than 15 minutes'') \<in> set NOTIFICATION_INTERVALS
   \<and> (''notified_24h'', timedelta 24 0 0, ''in less than 24 hours'') \<in> set NOTIFICATION_INTERVALS
   \<and> \<not> flag thesis ''notified_24h''
   \<and> due_date thesis = Some 1746878400000000
   \<and> 1746878400000000 - now_utc env_ok \<le> timedelta 24 0 0
   \<and> timedelta 0 15 0 < timedelta 24 0 0"
  by (simp add: check_task_thesis)
     (simp add: NOTIFICATION_INTERVALS_def thesis_def env_ok_def timedelta_def flag_def)

section \<open>A sweep with a failing delivery\<close>

lemma sweep_tasks:
  "tasks (fst (check_deadlines env db))
     = map (fold (commit env) (get_pending_tasks_with_due_dates
                                 (sqlite_error env Q_get_pending_tasks_with_due_dates) db))
         (tasks db)"
  by (simp add: check_deadlines_for_each for_each_task_tasks)

lemma sweep_ids: "map task_id (tasks (fst (check_deadlines env db))) = map task_id (tasks db)"
  by (simp add: sweep_tasks comp_def)

lemma sweep_calls:
  "snd (check_deadlines env db)
     = concat (map (\<lambda>f. snd (check_task env db f))
                (get_pending_tasks_with_due_dates
                   (sqlite_error env Q_get_pending_tasks_with_due_dates) db))"
  by (simp add: check_deadlines_for_each for_each_task_calls)

lemma same_id_same_row:
  "distinct (map task_id ts) \<Longrightarrow> a \<in> set ts \<Longrightarrow> b \<in> set ts \<Longrightarrow> task_id a = task_id b \<Longrightarrow> a = b"
  by (meson distinct_map inj_onD)

lemma sweep_row_fetched:
  assumes d: "distinct (map task_id (tasks db))"
    and f: "f \<in> set (get_pending_tasks_with_due_dates
                       (sqlite_error env Q_get_pending_tasks_with_due_dates) db)"
  shows "commit env f (fst f) \<in> set (tasks (fst (check_deadlines env db)))"
    and "\<forall>row \<in> set (tasks (fst (check_deadlines env db))).
           task_id row = task_id (fst f) \<longrightarrow> row = commit env f (fst f)"
proof -
  let ?fs = "get_pending_tasks_with_due_dates
               (sqlite_error env Q_get_pending_tasks_with_due_dates) db"
  have mem: "fst f \<in> set (tasks db)" using fetched_rows [OF f] by simp
  have one: "fold (commit env) ?fs (fst f) = commit env f (fst f)"
    by (rule fold_commit_one [OF fetched_distinct [OF d] f]) simp
  show "commit env f (fst f) \<in> set (tasks (fst (check_deadlines env db)))"
    unfolding sweep_tasks using mem one by force
  show "\<forall>row \<in> set (tasks (fst (check_deadlines env db))).
           task_id row = task_id (fst f) \<longrightarrow> row = commit env f (fst f)"
  proof (intro ballI impI)
    fix row
    assume "row \<in> set (tasks (fst (check_deadlines env db)))"
      and id: "task_id row = task_id (fst f)"
    then obtain t where t: "t \<in> set (tasks db)" and row: "row = fold (commit env) ?fs t"
      unfolding sweep_tasks by auto
    have "task_id t = task_id (fst f)" using id row by simp
    then have "t = fst f" by (rule same_id_same_row [OF d t mem])
    then show "row = commit env f (fst f)" using row one by simp
  qed
qed

lemma sweep_row_not_fetched:
  assumes d: "distinct (map task_id (tasks db))"
    and t: "t \<in> set (tasks db)" and nd: "due_date t = None"
  shows "fold (commit env) (get_pending_tasks_with_due_dates err db) t = t"
proof (rule fold_commit_other, rule notI)
  assume "task_id t \<in> (\<lambda>f. task_id (fst f)) ` set (get_pending_tasks_with_due_dates err db)"
  then obtain f where f: "f \<in> set (get_pending_tasks_with_due_dates err db)"
    and id: "task_id t = task_id (fst f)" by auto
  have "fst f \<in> set (tasks db)" and due: "due_date (fst f) \<noteq> None"
    using fetched_rows [OF f] by simp_all
  then have "t = fst f" using same_id_same_row [OF d t _ id] by simp
  then show False using nd due by simp
qed

lemma check_task_call_key:
  "call \<in> set (snd (check_task env db f)) \<Longrightarrow> \<exists>k. selected env f = Some (k, call)"
  by (cases "selected env f") (auto simp: check_task_calls)

lemma commit_failed:
  "selected env f = Some (k, call) \<Longrightarrow> telegram env call \<noteq> None \<Longrightarrow> commit env f t = t"
  by (cases "telegram env call") (simp_all add: commit_def committed_def)

lemma commit_delivered:
  "selected env f = Some (k, call) \<Longrightarrow> telegram env call = None \<Longrightarrow>
   commit env f (fst f) =
     (if sqlite_error env (Q_mark_specific_notification_sent (task_id (fst f)) k)
      then fst f else set_flag k (fst f))"
  by (simp add: commit_def committed_def)

lemma sorted_intervals_set:
  "i \<in> set sorted_intervals \<Longrightarrow> i \<in> set NOTIFICATION_INTERVALS \<and> fst i \<noteq> final_key"
  by (simp add: sorted_intervals_def)

lemma selected_interval:
  assumes "selected env f = Some (k, call)"
  shows "\<exists>d label due. (k, d, label) \<in> set NOTIFICATION_INTERVALS
           \<and> due_date (fst f) = Some due
           \<and> call = send_message (chat_id (fst f))
                      ((if k = final_key then final_msg else reminder_msg) label (fst f) due
                         (case tz_lookup env (snd f) of None \<Rightarrow> Zone (snd f) | Some e \<Rightarrow> UTC))
                      None"
proof (cases "due_date (fst f)")
  case None
  then show ?thesis using assms by (simp add: selected_def)
next
  case (Some due)
  show ?thesis
  proof (cases "due - now_utc env \<le> 0")
    case True
    then have "k = final_key"
      and "call = send_message (chat_id (fst f))
                   (final_msg ''NOW or is OVERDUE'' (fst f) due
                      (case tz_lookup env (snd f) of None \<Rightarrow> Zone (snd f) | Some e \<Rightarrow> UTC)) None"
      using assms Some by (simp_all add: selected_def Let_def split: if_splits)
    moreover have "(final_key, timedelta 0 0 0, ''NOW or is OVERDUE'') \<in> set NOTIFICATION_INTERVALS"
      by (simp add: NOTIFICATION_INTERVALS_def final_key_def)
    ultimately show ?thesis using Some
      by (intro exI [of _ "timedelta 0 0 0"] exI [of _ "''NOW or is OVERDUE''"]
            exI [of _ due] conjI) simp_all
  next
    case False
    then obtain i where i: "find (\<lambda>i. due - now_utc env \<le> fst (snd i) \<and> \<not> flag (fst f) (fst i))
                              sorted_intervals = Some i"
      and k: "k = fst i"
      and call: "call = send_message (chat_id (fst f))
                   (reminder_msg (snd (snd i)) (fst f) due
                      (case tz_lookup env (snd f) of None \<Rightarrow> Zone (snd f) | Some e \<Rightarrow> UTC)) None"
      using assms Some by (auto simp: selected_def Let_def split: option.splits)
    have "i \<in> set sorted_intervals"
      using i by (auto simp: find_Some_iff)
    then have mem: "i \<in> set NOTIFICATION_INTERVALS" and nf: "fst i \<noteq> final_key"
      by (simp_all add: sorted_intervals_set)
    have "(k, fst (snd i), snd (snd i)) \<in> set NOTIFICATION_INTERVALS"
      using mem k by simp
    then show ?thesis using Some call nf k
      by (intro exI [of _ "fst (snd i)"] exI [of _ "snd (snd i)"] exI [of _ due] conjI)
         simp_all
  qed
qed

lemma sweep_users: "users (fst (check_deadlines env db)) = users db"
  by (simp add: check_deadlines_for_each for_each_task_rest)

lemma fetched_again:
  assumes f: "(task, tz_str) \<in> set (get_pending_tasks_with_due_dates err db)"
    and t: "task \<in> set (tasks db')" and u: "users db' = users db"
  shows "(task, tz_str) \<in> set (get_pending_tasks_with_due_dates False db')"
  using assms by (auto simp: get_pending_tasks_with_due_dates_def split: if_splits)

lemma sweep_calls_mem:
  "f \<in> set (get_pending_tasks_with_due_dates
              (sqlite_error env Q_get_pending_tasks_with_due_dates) db)
   \<Longrightarrow> set (snd (check_task env db f)) \<subseteq> set (snd (check_deadlines env db))"
  by (auto simp: sweep_calls)

lemma selected_same:
  "now_utc env' = now_utc env \<Longrightarrow> tz_lookup env' (snd f) = tz_lookup env (snd f)
   \<Longrightarrow> selected env' f = selected env f"
  unfolding selected_def by (simp only:)

text \<open>
  Claim C3, as the job holds it. In a sweep over a table with distinct ids, take any
  fetched task for which the job sends a message. The calls of the sweep are the calls for
  all the fetched tasks, in order, so this call is made whatever happens to the others: the
  sweep does not stop at a failure. The message announces one interval of
  \<open>NOTIFICATION_INTERVALS\<close>, whose flag the fetched row does not have. If the delivery
  fails, the row of the task is in the table after the sweep exactly as it was fetched: no
  flag was committed for it. If the delivery succeeds, the row is the fetched one with the
  flag of the announced interval set (or the fetched one, when the update itself met a
  storage error). After a failed delivery, a following sweep in an environment \<open>env'\<close> that
  can read the table fetches the task again, with the same row, and sends for it what the
  job decides for that row at the time of \<open>env'\<close>: the same call once more when the clock and
  the zone of the task are as before, and otherwise the message of the interval the job
  selects at the new time.
\<close>

theorem check_deadlines_delivery_failure:
  assumes d: "distinct (map task_id (tasks db))"
    and f: "(task, tz_str) \<in> set (get_pending_tasks_with_due_dates
                       (sqlite_error env Q_get_pending_tasks_with_due_dates) db)"
    and c: "call \<in> set (snd (check_task env db (task, tz_str)))"
  shows "snd (check_deadlines env db)
           = concat (map (\<lambda>f. snd (check_task env db f))
                      (get_pending_tasks_with_due_dates
                         (sqlite_error env Q_get_pending_tasks_with_due_dates) db))
     \<and> call \<in> set (snd (check_deadlines env db))
     \<and> (\<exists>k delta label due.
           (k, delta, label) \<in> set NOTIFICATION_INTERVALS
         \<and> due_date task = Some due
         \<and> call = send_message (chat_id task)
                    ((if k = final_key then final_msg else reminder_msg) label task due
                       (case tz_lookup env tz_str of None \<Rightarrow> Zone tz_str | Some e \<Rightarrow> UTC))
                    None
         \<and> \<not> flag task k
         \<and> (telegram env call \<noteq> None \<longrightarrow>
              task \<in> set (tasks (fst (check_deadlines env db)))
              \<and> (\<forall>row \<in> set (tasks (fst (check_deadlines env db))).
                    task_id row = task_id task \<longrightarrow> row = task))
         \<and> (telegram env call = None \<longrightarrow>
              (if sqlite_error env (Q_mark_specific_notification_sent (task_id task) k)
               then task else set_flag k task) \<in> set (tasks (fst (check_deadlines env db)))
              \<and> (\<forall>row \<in> set (tasks (fst (check_deadlines env db))).
                    task_id row = task_id task \<longrightarrow>
                    row = (if sqlite_error env (Q_mark_specific_notification_sent (task_id task) k)
                           then task else set_flag k task))))
     \<and> (telegram env call \<noteq> None
          \<and> \<not> sqlite_error env' Q_get_pending_tasks_with_due_dates \<longrightarrow>
            (task, tz_str) \<in> set (get_pending_tasks_with_due_dates
                 (sqlite_error env' Q_get_pending_tasks_with_due_dates)
                 (fst (check_deadlines env db)))
          \<and> snd (check_task env' (fst (check_deadlines env db)) (task, tz_str))
              = snd (check_task env' db (task, tz_str))
          \<and> set (snd (check_task env' db (task, tz_str)))
              \<subseteq> set (snd (check_deadlines env' (fst (check_deadlines env db))))
          \<and> (now_utc env' = now_utc env \<and> tz_lookup env' tz_str = tz_lookup env tz_str \<longrightarrow>
               call \<in> set (snd (check_deadlines env' (fst (check_deadlines env db))))))"
proof -
  let ?db' = "fst (check_deadlines env db)"
  let ?m = "\<lambda>k. if sqlite_error env (Q_mark_specific_notification_sent (task_id task) k)
                 then task else set_flag k task"
  obtain k where k: "selected env (task, tz_str) = Some (k, call)"
    using check_task_call_key [OF c] by blast
  from selected_interval [OF k, unfolded fst_conv snd_conv]
  obtain delta label due where ivs: "(k, delta, label) \<in> set NOTIFICATION_INTERVALS
    \<and> due_date task = Some due
    \<and> call = send_message (chat_id task)
                    ((if k = final_key then final_msg else reminder_msg) label task due
                       (case tz_lookup env tz_str of None \<Rightarrow> Zone tz_str | Some e \<Rightarrow> UTC))
                    None"
    by (elim exE)
  note iv = ivs [THEN conjunct1] and due = ivs [THEN conjunct2, THEN conjunct1]
    and shape = ivs [THEN conjunct2, THEN conjunct2]
  note row = sweep_row_fetched [OF d f, simplified]
  have unfired: "\<not> flag task k" using selected_key [OF k] by simp
  have calls: "call \<in> set (snd (check_deadlines env db))"
    using c sweep_calls_mem [OF f] by (rule rev_subsetD)
  have failed: "telegram env call \<noteq> None \<longrightarrow>
          task \<in> set (tasks ?db')
          \<and> (\<forall>row \<in> set (tasks ?db'). task_id row = task_id task \<longrightarrow> row = task)"
  proof
    assume "telegram env call \<noteq> None"
    then have ct: "commit env (task, tz_str) task = task" by (rule commit_failed [OF k])
    show "task \<in> set (tasks ?db')
          \<and> (\<forall>row \<in> set (tasks ?db'). task_id row = task_id task \<longrightarrow> row = task)"
      using row [unfolded ct] by (intro conjI)
  qed
  have delivered: "telegram env call = None \<longrightarrow>
          ?m k \<in> set (tasks ?db')
          \<and> (\<forall>row \<in> set (tasks ?db'). task_id row = task_id task \<longrightarrow> row = ?m k)"
  proof
    assume ok: "telegram env call = None"
    have eq: "commit env (task, tz_str) task = ?m k"
      using commit_delivered [OF k ok] by simp
    show "?m k \<in> set (tasks ?db')
          \<and> (\<forall>row \<in> set (tasks ?db'). task_id row = task_id task \<longrightarrow> row = ?m k)"
      using row [unfolded eq] by (intro conjI)
  qed
  have one: "\<exists>k delta label due.
           (k, delta, label) \<in> set NOTIFICATION_INTERVALS
         \<and> due_date task = Some due
         \<and> call = send_message (chat_id task)
                    ((if k = final_key then final_msg else reminder_msg) label task due
                       (case tz_lookup env tz_str of None \<Rightarrow> Zone tz_str | Some e \<Rightarrow> UTC))
                    None
         \<and> \<not> flag task k
         \<and> (telegram env call \<noteq> None \<longrightarrow>
              task \<in> set (tasks ?db')
              \<and> (\<forall>row \<in> set (tasks ?db'). task_id row = task_id task \<longrightarrow> row = task))
         \<and> (telegram env call = None \<longrightarrow>
              ?m k \<in> set (tasks ?db')
              \<and> (\<forall>row \<in> set (tasks ?db'). task_id row = task_id task \<longrightarrow> row = ?m k))"
    using iv due shape unfired failed delivered
    by (intro exI [of _ k] exI [of _ delta] exI [of _ label] exI [of _ due] conjI)
  have "next": "telegram env call \<noteq> None
          \<and> \<not> sqlite_error env' Q_get_pending_tasks_with_due_dates \<longrightarrow>
            (task, tz_str) \<in> set (get_pending_tasks_with_due_dates
                 (sqlite_error env' Q_get_pending_tasks_with_due_dates) ?db')
          \<and> snd (check_task env' ?db' (task, tz_str)) = snd (check_task env' db (task, tz_str))
          \<and> set (snd (check_task env' db (task, tz_str)))
              \<subseteq> set (snd (check_deadlines env' ?db'))
          \<and> (now_utc env' = now_utc env \<and> tz_lookup env' tz_str = tz_lookup env tz_str \<longrightarrow>
               call \<in> set (snd (check_deadlines env' ?db')))"
  proof
    assume a: "telegram env call \<noteq> None
          \<and> \<not> sqlite_error env' Q_get_pending_tasks_with_due_dates"
    have t: "task \<in> set (tasks ?db')" using failed a by simp
    have ne: "\<not> sqlite_error env' Q_get_pending_tasks_with_due_dates" using a by simp
    have again: "(task, tz_str) \<in> set (get_pending_tasks_with_due_dates
                 (sqlite_error env' Q_get_pending_tasks_with_due_dates) ?db')"
      using fetched_again [OF f t sweep_users] ne by simp
    have same: "snd (check_task env' ?db' (task, tz_str)) = snd (check_task env' db (task, tz_str))"
      by (simp add: check_task_calls)
    have sub: "set (snd (check_task env' db (task, tz_str)))
              \<subseteq> set (snd (check_deadlines env' ?db'))"
      using sweep_calls_mem [OF again] unfolding same .
    have rep: "now_utc env' = now_utc env \<and> tz_lookup env' tz_str = tz_lookup env tz_str \<longrightarrow>
               call \<in> set (snd (check_deadlines env' ?db'))"
    proof
      assume e: "now_utc env' = now_utc env \<and> tz_lookup env' tz_str = tz_lookup env tz_str"
      have "selected env' (task, tz_str) = selected env (task, tz_str)"
        by (rule selected_same) (simp_all add: e)
      then have "call \<in> set (snd (check_task env' db (task, tz_str)))"
        using k by (simp add: check_task_calls)
      then show "call \<in> set (snd (check_deadlines env' ?db'))" using sub by (rule rev_subsetD)
    qed
    show "(task, tz_str) \<in> set (get_pending_tasks_with_due_dates
                 (sqlite_error env' Q_get_pending_tasks_with_due_dates) ?db')
          \<and> snd (check_task env' ?db' (task, tz_str)) = snd (check_task env' db (task, tz_str))
          \<and> set (snd (check_task env' db (task, tz_str)))
              \<subseteq> set (snd (check_deadlines env' ?db'))
          \<and> (now_utc env' = now_utc env \<and> tz_lookup env' tz_str = tz_lookup env tz_str \<longrightarrow>
               call \<in> set (snd (check_deadlines env' ?db')))"
      using again same sub rep by (intro conjI)
  qed
  show ?thesis using sweep_calls [of env db] calls one "next" by (intro conjI)
qed

lemma check_task_report:
  "snd (check_task env_chat_down db_two (report, ''Asia/Tashkent''))
     = [send_message 111
          (reminder_msg ''in less than 15 minutes'' report 1746878400000000 (Zone ''Asia/Tashkent''))
          None]"
  by (simp add: check_task_calls selected_def sorted_intervals_eq Let_def report_def
      thesis_def env_chat_down_def env_ok_def tz_lookup_ok_def timedelta_def flag_def)

lemma check_task_thesis_two:
  "snd (check_task env_chat_down db_two (thesis, ''Asia/Tashkent''))
     = [send_message 67890
          (reminder_msg ''in less than 15 minutes'' thesis 1746878400000000 (Zone ''Asia/Tashkent''))
          None]"
  by (simp add: check_task_calls selected_def sorted_intervals_eq Let_def
      thesis_def env_chat_down_def env_ok_def tz_lookup_ok_def timedelta_def flag_def)

lemma fetched_two:
  "get_pending_tasks_with_due_dates
     (sqlite_error env_chat_down Q_get_pending_tasks_with_due_dates) db_two
   = [(thesis, ''Asia/Tashkent''), (report, ''Asia/Tashkent'')]"
  by (simp add: get_pending_tasks_with_due_dates_def env_chat_down_def env_ok_def db_two_def
      report_def thesis_def milk_def)

theorem check_deadlines_delivery_failure_witness:
  "distinct (map task_id (tasks db_two))
   \<and> (report, ''Asia/Tashkent'') \<in> set (get_pending_tasks_with_due_dates
         (sqlite_error env_chat_down Q_get_pending_tasks_with_due_dates) db_two)
   \<and> send_message 111
        (reminder_msg ''in less than 15 minutes'' report 1746878400000000 (Zone ''Asia/Tashkent''))
        None \<in> set (snd (check_task env_chat_down db_two (report, ''Asia/Tashkent'')))
   \<and> telegram env_chat_down
        (send_message 111
          (reminder_msg ''in less than 15 minutes'' report 1746878400000000 (Zone ''Asia/Tashkent''))
          None) \<noteq> None
   \<and> \<not> sqlite_error env_chat_down Q_get_pending_tasks_with_due_dates
   \<and> (report, ''Asia/Tashkent'') \<in> set (get_pending_tasks_with_due_dates
         (sqlite_error env_chat_down Q_get_pending_tasks_with_due_dates)
         (fst (check_deadlines env_chat_down db_two)))
   \<and> send_message 111
        (reminder_msg ''in less than 15 minutes'' report 1746878400000000 (Zone ''Asia/Tashkent''))
        None \<in> set (snd (check_deadlines env_chat_down (fst (check_deadlines env_chat_down db_two))))
   \<and> (thesis, ''Asia/Tashkent'') \<in> set (get_pending_tasks_with_due_dates
         (sqlite_error env_chat_down Q_get_pending_tasks_with_due_dates) db_two)
   \<and> send_message 67890
        (reminder_msg ''in less than 15 minutes'' thesis 1746878400000000 (Zone ''Asia/Tashkent''))
        None \<in> set (snd (check_task env_chat_down db_two (thesis, ''Asia/Tashkent'')))
   \<and> telegram env_chat_down
        (send_message 67890
          (reminder_msg ''in less than 15 minutes'' thesis 1746878400000000 (Zone ''Asia/Tashkent''))
          None) = None
   \<and> send_message 67890
        (reminder_msg ''in less than 15 minutes'' thesis 1746878400000000 (Zone ''Asia/Tashkent''))
        None \<in> set (snd (check_deadlines env_chat_down db_two))
   \<and> (\<exists>k. \<not> flag thesis k
          \<and> set_flag k thesis \<in> set (tasks (fst (check_deadlines env_chat_down db_two))))"
proof -
  let ?ca = "send_message 111
          (reminder_msg ''in less than 15 minutes'' report 1746878400000000 (Zone ''Asia/Tashkent''))
          None"
  let ?cb = "send_message 67890
          (reminder_msg ''in less than 15 minutes'' thesis 1746878400000000 (Zone ''Asia/Tashkent''))
          None"
  have d: "distinct (map task_id (tasks db_two))"
    by (simp add: db_two_def report_def thesis_def milk_def)
  have fa: "(report, ''Asia/Tashkent'') \<in> set (get_pending_tasks_with_due_dates
              (sqlite_error env_chat_down Q_get_pending_tasks_with_due_dates) db_two)"
    and fb: "(thesis, ''Asia/Tashkent'') \<in> set (get_pending_tasks_with_due_dates
              (sqlite_error env_chat_down Q_get_pending_tasks_with_due_dates) db_two)"
    by (simp_all add: fetched_two)
  have ca: "?ca \<in> set (snd (check_task env_chat_down db_two (report, ''Asia/Tashkent'')))"
    by (simp add: check_task_report)
  have cb: "?cb \<in> set (snd (check_task env_chat_down db_two (thesis, ''Asia/Tashkent'')))"
    by (simp add: check_task_thesis_two)
  have down: "telegram env_chat_down ?ca \<noteq> None"
    by (simp add: env_chat_down_def)
  have up: "telegram env_chat_down ?cb = None"
    by (simp add: env_chat_down_def)
  have ne: "\<not> sqlite_error env_chat_down Q_get_pending_tasks_with_due_dates"
    by (simp add: env_chat_down_def env_ok_def)
  have nm: "\<And>k. \<not> sqlite_error env_chat_down (Q_mark_specific_notification_sent (task_id thesis) k)"
    by (simp add: env_chat_down_def env_ok_def)
  note a = check_deadlines_delivery_failure [OF d fa ca, where env' = env_chat_down]
  note b = check_deadlines_delivery_failure [OF d fb cb, where env' = env_chat_down]
  note a4 = a [THEN conjunct2, THEN conjunct2, THEN conjunct2, THEN mp, OF conjI [OF down ne]]
  have again: "(report, ''Asia/Tashkent'') \<in> set (get_pending_tasks_with_due_dates
         (sqlite_error env_chat_down Q_get_pending_tasks_with_due_dates)
         (fst (check_deadlines env_chat_down db_two)))"
    using a4 by (rule conjunct1)
  have retry: "?ca \<in> set (snd (check_deadlines env_chat_down
                               (fst (check_deadlines env_chat_down db_two))))"
    using a4 [THEN conjunct2, THEN conjunct2, THEN conjunct2] by simp
  have sent: "?cb \<in> set (snd (check_deadlines env_chat_down db_two))"
    using b [THEN conjunct2] by (rule conjunct1)
  have flagged: "\<exists>k. \<not> flag thesis k
          \<and> set_flag k thesis \<in> set (tasks (fst (check_deadlines env_chat_down db_two)))"
    using b [THEN conjunct2, THEN conjunct2, THEN conjunct1]
  proof (elim exE conjE)
    fix k
    assume k: "\<not> flag thesis k"
      and m: "telegram env_chat_down ?cb = None \<longrightarrow>
      (if sqlite_error env_chat_down (Q_mark_specific_notification_sent (task_id thesis) k)
       then thesis else set_flag k thesis) \<in> set (tasks (fst (check_deadlines env_chat_down db_two)))
      \<and> (\<forall>row \<in> set (tasks (fst (check_deadlines env_chat_down db_two))).
            task_id row = task_id thesis \<longrightarrow>
            row = (if sqlite_error env_chat_down (Q_mark_specific_notification_sent (task_id thesis) k)
                   then thesis else set_flag k thesis))"
    have "set_flag k thesis \<in> set (tasks (fst (check_deadlines env_chat_down db_two)))"
      using m [THEN mp, OF up, THEN conjunct1] nm [of k] by (simp only: if_False)
    then show "\<exists>k. \<not> flag thesis k
          \<and> set_flag k thesis \<in> set (tasks (fst (check_deadlines env_chat_down db_two)))"
      using k by (intro exI [of _ k] conjI)
  qed
  show ?thesis using d fa ca down ne again retry fb cb up sent flagged by (intro conjI)
qed

lemmas sweep_eval =
  check_deadlines_def get_pending_tasks_with_due_dates_def check_task_def
  sorted_intervals_eq notify_def mark_specific_notification_sent_def set_flag_def flag_def
  NOTIFICATION_INTERVALS_def NOTIFICATION_INTERVAL_KEYS_def final_key_def timedelta_def
  Let_def env_ok_def tz_lookup_ok_def thesis_def milk_def db_example_def

lemma sweep_16min_down:
  "check_deadlines env_16min_down db_example
     = (db_example,
        [send_message 67890
           (reminder_msg ''in less than 1 hour'' thesis 1746878400000000 (Zone ''Asia/Tashkent''))
           None])"
  by (simp add: sweep_eval env_16min_down_def)

lemma sweep_1min:
  "check_deadlines env_1min db_example
     = (db_example\<lparr>tasks := [thesis\<lparr>notified_15m := True\<rparr>, milk]\<rparr>,
        [send_message 67890
           (reminder_msg ''in less than 15 minutes'' thesis 1746878400000000
              (Zone ''Asia/Tashkent''))
           None])"
  by (simp add: sweep_eval env_1min_def)

lemma sweep_overdue:
  "check_deadlines env_overdue (db_example\<lparr>tasks := [thesis\<lparr>notified_15m := True\<rparr>, milk]\<rparr>)
     = (db_example\<lparr>tasks := [thesis\<lparr>notified_15m := True, notified_final_due := True\<rparr>, milk]\<rparr>,
        [send_message 67890
           (final_msg ''NOW or is OVERDUE'' (thesis\<lparr>notified_15m := True\<rparr>) 1746878400000000
              (Zone ''Asia/Tashkent''))
           None])"
  by (simp add: sweep_eval env_overdue_def)

lemma sweep_after:
  "check_deadlines env_overdue
     (db_example\<lparr>tasks := [thesis\<lparr>notified_15m := True, notified_final_due := True\<rparr>, milk]\<rparr>)
     = (db_example\<lparr>tasks := [thesis\<lparr>notified_15m := True, notified_final_due := True\<rparr>, milk]\<rparr>,
        [])"
  by (simp add: sweep_eval env_overdue_def)

text \<open>
  Claim C3 says in brackets that the next sweep retries the interval whose delivery
  failed. Here is the thesis of the tests. Sixteen minutes before the due time the job
  selects the one-hour reminder and Telegram refuses it; nothing is written. The next
  sweep, one minute before the due time, sends the 15-minute reminder instead, the sweep
  after the due time sends the final message, and the sweep after that sends nothing: the
  one-hour reminder is never sent again and its flag stays unset.
\<close>

theorem failed_reminder_not_retried_counterexample:
  "snd (check_deadlines env_16min_down db_example)
     = [send_message 67890
          (reminder_msg ''in less than 1 hour'' thesis 1746878400000000 (Zone ''Asia/Tashkent''))
          None]
   \<and> telegram env_16min_down
        (send_message 67890
          (reminder_msg ''in less than 1 hour'' thesis 1746878400000000 (Zone ''Asia/Tashkent''))
          None) = Some TelegramError
   \<and> fst (check_deadlines env_16min_down db_example) = db_example
   \<and> snd (sweeps [env_16min_down, env_1min, env_overdue, env_overdue] db_example)
       = [send_message 67890
            (reminder_msg ''in less than 1 hour'' thesis 1746878400000000 (Zone ''Asia/Tashkent''))
            None,
          send_message 67890
            (reminder_msg ''in less than 15 minutes'' thesis 1746878400000000
               (Zone ''Asia/Tashkent''))
            None,
          send_message 67890
            (final_msg ''NOW or is OVERDUE'' (thesis\<lparr>notified_15m := True\<rparr>) 1746878400000000
               (Zone ''Asia/Tashkent''))
            None]
   \<and> tasks (fst (sweeps [env_16min_down, env_1min, env_overdue, env_overdue] db_example))
       = [thesis\<lparr>notified_15m := True, notified_final_due := True\<rparr>, milk]
   \<and> \<not> flag (thesis\<lparr>notified_15m := True, notified_final_due := True\<rparr>) ''notified_1h''"
  by (simp add: sweep_16min_down sweep_1min sweep_overdue sweep_after Let_def)
     (simp add: env_16min_down_def thesis_def flag_def)

section \<open>Tasks without a due date\<close>

lemma sweep_distinct:
  "distinct (map task_id (tasks db)) \<Longrightarrow> distinct (map task_id (tasks (fst (check_deadlines env db))))"
  by (simp add: sweep_ids)

lemma sweep_keeps_row:
  assumes "distinct (map task_id (tasks db))" and "t \<in> set (tasks db)" and "due_date t = None"
  shows "t \<in> set (tasks (fst (check_deadlines env db)))"
proof -
  have "fold (commit env) (get_pending_tasks_with_due_dates
           (sqlite_error env Q_get_pending_tasks_with_due_dates) db) t = t"
    by (rule sweep_row_not_fetched [OF assms])
  then show ?thesis unfolding sweep_tasks using assms(2) by force
qed

lemma selected_call_shape:
  "selected env f = Some (k, call) \<Longrightarrow>
   \<exists>fmt a rest. call = send_message (chat_id (fst f)) (Fmt fmt (a # I (task_id (fst f)) # rest)) None"
  by (auto simp: selected_def Let_def final_msg_def reminder_msg_def
      split: option.splits if_splits)

lemma sweep_call_task:
  assumes d: "distinct (map task_id (tasks db))" and t: "t \<in> set (tasks db)"
    and nd: "due_date t = None"
    and c: "send_message cid (Fmt fmt (a # I tid # rest)) kb \<in> set (snd (check_deadlines env db))"
  shows "tid \<noteq> task_id t"
proof
  assume same: "tid = task_id t"
  from c obtain f where f: "f \<in> set (get_pending_tasks_with_due_dates
           (sqlite_error env Q_get_pending_tasks_with_due_dates) db)"
    and cf: "send_message cid (Fmt fmt (a # I tid # rest)) kb \<in> set (snd (check_task env db f))"
    unfolding sweep_calls by auto
  from check_task_call_key [OF cf] obtain k
    where "selected env f = Some (k, send_message cid (Fmt fmt (a # I tid # rest)) kb)" by blast
  from selected_call_shape [OF this] have "tid = task_id (fst f)" by simp
  with same have id: "task_id t = task_id (fst f)" by simp
  have "fst f \<in> set (tasks db)" and due: "due_date (fst f) \<noteq> None"
    using fetched_rows [OF f] by simp_all
  then have "t = fst f" using same_id_same_row [OF d t _ id] by simp
  then show False using nd due by simp
qed

lemma sweeps_invariant:
  assumes "distinct (map task_id (tasks db))" and "t \<in> set (tasks db)" and "due_date t = None"
  shows "distinct (map task_id (tasks (fst (sweeps envs db))))
     \<and> t \<in> set (tasks (fst (sweeps envs db)))
     \<and> (\<forall>cid fmt a tid rest kb.
           send_message cid (Fmt fmt (a # I tid # rest)) kb \<in> set (snd (sweeps envs db))
             \<longrightarrow> tid \<noteq> task_id t)"
  using assms
proof (induction envs arbitrary: db)
  case Nil
  then show ?case by simp
next
  case (Cons env envs)
  let ?db = "fst (check_deadlines env db)"
  have d': "distinct (map task_id (tasks ?db))" by (rule sweep_distinct [OF Cons.prems(1)])
  have t': "t \<in> set (tasks ?db)" by (rule sweep_keeps_row [OF Cons.prems])
  note ih = Cons.IH [OF d' t' Cons.prems(3)]
  have first: "\<forall>cid fmt a tid rest kb.
           send_message cid (Fmt fmt (a # I tid # rest)) kb \<in> set (snd (check_deadlines env db))
             \<longrightarrow> tid \<noteq> task_id t"
    using sweep_call_task [OF Cons.prems] by blast
  show ?case
  proof (intro conjI allI impI)
    show "distinct (map task_id (tasks (fst (sweeps (env # envs) db))))"
      using ih by (simp add: Let_def)
    show "t \<in> set (tasks (fst (sweeps (env # envs) db)))"
      using ih by (simp add: Let_def)
  next
    fix cid fmt a tid rest kb
    assume "send_message cid (Fmt fmt (a # I tid # rest)) kb \<in> set (snd (sweeps (env # envs) db))"
    then have "send_message cid (Fmt fmt (a # I tid # rest)) kb \<in> set (snd (check_deadlines env db))
        \<or> send_message cid (Fmt fmt (a # I tid # rest)) kb \<in> set (snd (sweeps envs ?db))"
      by (simp add: Let_def)
    then show "tid \<noteq> task_id t" using first ih by blast
  qed
qed

text \<open>
  Claim C7. In a table with distinct ids, a task without a due date and with no flag set
  is still in the table, unchanged, after any number of sweeps, whatever the clock, the
  zone database, SQLite and Telegram do in each of them: the row with its id has no flag
  set. No message of these sweeps carries its id.
\<close>

theorem sweeps_leave_task_without_due_date:
  assumes "distinct (map task_id (tasks db))" and "task \<in> set (tasks db)"
    and "due_date task = None" and "fired_thresholds task = {}"
  shows "task \<in> set (tasks (fst (sweeps envs db)))
     \<and> (\<forall>row \<in> set (tasks (fst (sweeps envs db))).
           task_id row = task_id task \<longrightarrow> fired_thresholds row = {})
     \<and> (\<forall>cid fmt a tid rest kb.
           send_message cid (Fmt fmt (a # I tid # rest)) kb \<in> set (snd (sweeps envs db))
             \<longrightarrow> tid \<noteq> task_id task)"
proof -
  note inv = sweeps_invariant [OF assms(1-3), of envs]
  have "\<forall>row \<in> set (tasks (fst (sweeps envs db))).
           task_id row = task_id task \<longrightarrow> fired_thresholds row = {}"
  proof (intro ballI impI)
    fix row
    assume r: "row \<in> set (tasks (fst (sweeps envs db)))" and id: "task_id row = task_id task"
    have "row = task"
      by (rule same_id_same_row [OF inv [THEN conjunct1] r inv [THEN conjunct2, THEN conjunct1] id])
    then show "fired_thresholds row = {}" using assms(4) by simp
  qed
  then show ?thesis using inv by (intro conjI) simp_all
qed

theorem sweeps_leave_task_without_due_date_witness:
  "distinct (map task_id (tasks db_example)) \<and> milk \<in> set (tasks db_example)
   \<and> due_date milk = None \<and> fired_thresholds milk = {}
   \<and> milk \<in> set (tasks (fst (sweeps [env_ok, env_ok] db_example)))"
proof -
  have d: "distinct (map task_id (tasks db_example))"
    by (simp add: db_example_def thesis_def milk_def)
  have m: "milk \<in> set (tasks db_example)" by (simp add: db_example_def)
  have n: "due_date milk = None" by (simp add: milk_def)
  have e: "fired_thresholds milk = {}"
    by (simp add: fired_thresholds_def flag_def milk_def)
  show ?thesis
    using d m n e sweeps_leave_task_without_due_date [OF d m n e, of "[env_ok, env_ok]", THEN conjunct1]
    by (intro conjI)
qed

section \<open>The flags of a task never decrease\<close>

lemma fold_max_bounds:
  "(a::int) \<le> fold max xs a \<and> (\<forall>x \<in> set xs. x \<le> fold max xs a)"
proof (induction xs arbitrary: a)
  case Nil
  show ?case by simp
next
  case (Cons y ys)
  have "max y a \<le> fold max ys (max y a)" and "\<forall>x \<in> set ys. x \<le> fold max ys (max y a)"
    using Cons.IH [of "max y a"] by simp_all
  then show ?case by auto
qed

lemma preserves_refl: "preserves db db"
  by (auto simp: preserves_def grows_def)

lemma preserves_trans:
  assumes "preserves a b" and "preserves b c"
  shows "preserves a c"
  unfolding preserves_def
proof (intro impI)
  assume wa: "well_formed a"
  then have wb: "well_formed b" and gab: "grows a b" using assms(1) by (simp_all add: preserves_def)
  then have wc: "well_formed c" and gbc: "grows b c" using assms(2) by (simp_all add: preserves_def)
  have "grows a c"
    unfolding grows_def
  proof (intro conjI ballI impI)
    show "seq a \<le> seq c" using gab gbc by (simp add: grows_def)
  next
    fix t''
    assume t'': "t'' \<in> set (tasks c)" and le: "task_id t'' \<le> seq a"
    have "task_id t'' \<le> seq b" using le gab by (simp add: grows_def)
    with gbc t'' obtain t' where t': "t' \<in> set (tasks b)" "task_id t' = task_id t''"
      "fired_thresholds t' \<subseteq> fired_thresholds t''"
      unfolding grows_def by blast
    with gab le obtain t where "t \<in> set (tasks a)" "task_id t = task_id t'"
      "fired_thresholds t \<subseteq> fired_thresholds t'"
      unfolding grows_def by force
    with t' show "\<exists>t \<in> set (tasks a). task_id t = task_id t''
        \<and> fired_thresholds t \<subseteq> fired_thresholds t''"
      by auto
  qed
  with wc show "well_formed c \<and> grows a c" by simp
qed

lemma preserves_map:
  assumes "tasks db' = map F (tasks db)" and "seq db' = seq db"
    and "\<And>t. task_id (F t) = task_id t" and "\<And>t. fired_thresholds t \<subseteq> fired_thresholds (F t)"
  shows "preserves db db'"
proof -
  have ids: "map task_id (tasks db') = map task_id (tasks db)"
    using assms(1,3) by (simp add: comp_def)
  have "well_formed db'" if wf: "well_formed db"
  proof -
    have "distinct (map task_id (tasks db'))"
      unfolding ids using wf by (simp add: well_formed_def)
    moreover have "list_all (\<lambda>t. task_id t \<le> seq db') (tasks db')"
      using wf assms(1,2,3) by (simp add: well_formed_def list_all_iff)
    ultimately show ?thesis by (simp add: well_formed_def)
  qed
  moreover have "grows db db'"
    unfolding grows_def using assms by auto
  ultimately show ?thesis by (simp add: preserves_def)
qed

lemma preserves_filter:
  assumes "tasks db' = filter P (tasks db)" and "seq db' = seq db"
  shows "preserves db db'"
proof -
  have "well_formed db \<Longrightarrow> well_formed db'"
    using assms by (simp add: well_formed_def list_all_iff distinct_map_filter)
  moreover have "grows db db'"
    unfolding grows_def using assms by auto
  ultimately show ?thesis by (simp add: preserves_def)
qed

lemma fired_status [simp]: "fired_thresholds (t\<lparr>status := st\<rparr>) = fired_thresholds t"
  by (simp add: fired_thresholds_def flag_def)

lemma preserves_update_task_status:
  "preserves db (fst (update_task_status err db tid uid st))"
proof (cases err)
  case True
  then show ?thesis by (simp add: update_task_status_def preserves_refl)
next
  case False
  show ?thesis
    by (rule preserves_map [where F = "\<lambda>t. if task_id t = tid \<and> user_id t = uid then t\<lparr>status := st\<rparr> else t"])
       (simp_all add: update_task_status_def Let_def False)
qed

lemma preserves_delete_task: "preserves db (fst (delete_task err db tid uid))"
proof (cases err)
  case True
  then show ?thesis by (simp add: delete_task_def preserves_refl)
next
  case False
  show ?thesis
    by (rule preserves_filter [where P = "\<lambda>t. \<not> (task_id t = tid \<and> user_id t = uid)"])
       (simp_all add: delete_task_def Let_def False)
qed

lemma preserves_mark:
  "preserves db (fst (mark_specific_notification_sent err db tid k))"
  by (rule preserves_map [OF mark_tasks(1) mark_tasks(3)])
     (auto simp: fired_set_flag)

lemma preserves_step_sweep: "preserves db (fst (check_deadlines env db))"
  by (rule preserves_map [OF sweep_tasks])
     (simp_all add: check_deadlines_for_each for_each_task_rest fired_fold_commit)

lemma preserves_add_task: "preserves db (fst (add_task err db uid cid desc due ts))"
proof (cases err)
  case True
  then show ?thesis by (simp add: add_task_def preserves_refl)
next
  case False
  let ?n = "fold max (map task_id (tasks db)) (seq db) + 1"
  have b1: "seq db < ?n" and b2: "\<forall>t \<in> set (tasks db). task_id t < ?n"
    using fold_max_bounds [of "seq db" "map task_id (tasks db)"] by auto
  show ?thesis
    unfolding preserves_def
  proof (intro impI conjI)
    assume wf: "well_formed db"
    show "well_formed (fst (add_task err db uid cid desc due ts))"
      using wf b1 b2 False
      by (auto simp: add_task_def Let_def well_formed_def list_all_iff)
    show "grows db (fst (add_task err db uid cid desc due ts))"
      using b1 False by (auto simp: add_task_def Let_def grows_def)
  qed
qed

lemma preserves_add_task_logic:
  "preserves db (fst (add_task_logic env db desc due uid cid))"
  by (auto simp: add_task_logic_def Let_def preserves_refl preserves_add_task
      split: sum.splits option.splits)

lemma preserves_mark_task_done_logic:
  "preserves db (fst (mark_task_done_logic env db tid uid))"
  by (auto simp: mark_task_done_logic_def Let_def preserves_refl preserves_update_task_status
      split: option.splits)

lemma preserves_delete_task_logic:
  "preserves db (fst (delete_task_logic env db tid uid))"
  by (auto simp: delete_task_logic_def Let_def preserves_refl preserves_delete_task)

lemma preserves_list_tasks_command:
  "preserves db (fst (list_tasks_command env db uid cid))"
  by (auto simp: list_tasks_command_def Let_def reply_def preserves_refl
      split: sum.splits option.splits)

lemma preserves_done_task_command:
  "preserves db (fst (done_task_command env db args uid))"
  by (auto simp: done_task_command_def Let_def reply_def preserves_refl
      preserves_update_task_status split: sum.splits option.splits list.splits)

lemma preserves_delete_task_command:
  "preserves db (fst (delete_task_command env db args uid))"
  by (auto simp: delete_task_command_def Let_def reply_def preserves_refl
      preserves_delete_task split: sum.splits option.splits list.splits)

lemma preserves_button_callback:
  "preserves db (fst (button_callback env db data uid))"
  by (auto simp: button_callback_def Let_def edit_except_BadRequest_def preserves_refl
      preserves_delete_task split: sum.splits option.splits)

lemma set_timezone_command_tasks:
  "tasks (fst (set_timezone_command env db args uid)) = tasks db"
  "seq (fst (set_timezone_command env db args uid)) = seq db"
  by (auto simp: set_timezone_command_def set_user_timezone_def reply_def Let_def
      split: list.splits option.splits exn.splits sum.splits)

lemma preserves_same_tasks: "tasks db' = tasks db \<Longrightarrow> seq db' = seq db \<Longrightarrow> preserves db db'"
  by (auto simp: preserves_def well_formed_def grows_def)

lemma preserves_set_timezone_command:
  "preserves db (fst (set_timezone_command env db args uid))"
  by (rule preserves_same_tasks) (rule set_timezone_command_tasks)+

lemma preserves_step: "preserves db (step env operation db)"
  by (cases operation)
     (simp_all add: preserves_refl preserves_add_task_logic preserves_mark_task_done_logic
        preserves_delete_task_logic preserves_list_tasks_command preserves_done_task_command
        preserves_delete_task_command preserves_button_callback preserves_step_sweep
        preserves_mark preserves_set_timezone_command)

lemma preserves_run: "preserves db (run ops db)"
proof (induction ops arbitrary: db)
  case Nil
  show ?case by (simp add: preserves_refl)
next
  case (Cons eo ops)
  obtain env operation where eo: "eo = (env, operation)" by (cases eo) auto
  show ?case
    unfolding eo run.simps
    by (rule preserves_trans [OF preserves_step Cons.IH])
qed

text \<open>
  Claim C8. Start from a well-formed table and run any sequence of operations, each in
  any environment: additions, lists, completions and deletions through the conversational
  layer, the commands or the buttons, sweeps, and marks of a flag. A task that is in the
  table at the start and whose id is in the table at the end has at the end every flag it
  had at the start. (Ids are never handed out twice, so the row at the end is that task.)
\<close>

theorem fired_thresholds_monotone:
  assumes "well_formed db" and "t \<in> set (tasks db)" and "t' \<in> set (tasks (run ops db))"
    and "task_id t' = task_id t"
  shows "fired_thresholds t \<subseteq> fired_thresholds t'"
proof -
  have g: "grows db (run ops db)"
    using preserves_run [of db ops] assms(1) by (simp add: preserves_def)
  have "task_id t' \<le> seq db"
    using assms(1,2,4) by (simp add: well_formed_def list_all_iff)
  with g assms(3) obtain t0 where t0: "t0 \<in> set (tasks db)" "task_id t0 = task_id t'"
    "fired_thresholds t0 \<subseteq> fired_thresholds t'"
    unfolding grows_def by blast
  have "t0 = t"
    using assms(1) t0(1,2) assms(2,4) same_id_same_row [of "tasks db" t0 t]
    by (simp add: well_formed_def)
  with t0(3) show ?thesis by simp
qed

lemma run_example:
  "tasks (run [(env_ok, Sweep), (env_ok, Complete 1 12345)] db_example)
     = [thesis\<lparr>notified_15m := True, status := ''done''\<rparr>, milk]"
  by (simp add: Let_def check_deadlines_def check_task_selected
      get_pending_tasks_with_due_dates_def selected_def sorted_intervals_eq
      mark_specific_notification_sent_def NOTIFICATION_INTERVAL_KEYS_def
      mark_task_done_logic_def get_task_by_id_def update_task_status_def
      db_example_def thesis_def milk_def env_ok_def tz_lookup_ok_def timedelta_def flag_def
      set_flag_def)

theorem fired_thresholds_monotone_witness:
  "well_formed db_example \<and> thesis \<in> set (tasks db_example)
   \<and> thesis\<lparr>notified_15m := True, status := ''done''\<rparr>
        \<in> set (tasks (run [(env_ok, Sweep), (env_ok, Complete 1 12345)] db_example))
   \<and> task_id (thesis\<lparr>notified_15m := True, status := ''done''\<rparr>) = task_id thesis
   \<and> fired_thresholds thesis
        \<subseteq> fired_thresholds (thesis\<lparr>notified_15m := True, status := ''done''\<rparr>)"
proof -
  have w: "well_formed db_example"
    by (simp add: well_formed_def db_example_def thesis_def milk_def)
  have t: "thesis \<in> set (tasks db_example)" by (simp add: db_example_def)
  have t': "thesis\<lparr>notified_15m := True, status := ''done''\<rparr>
        \<in> set (tasks (run [(env_ok, Sweep), (env_ok, Complete 1 12345)] db_example))"
    unfolding run_example by simp
  have i: "task_id (thesis\<lparr>notified_15m := True, status := ''done''\<rparr>) = task_id thesis"
    by simp
  show ?thesis
    using w t t' i fired_thresholds_monotone [OF w t t' i] by (intro conjI)
qed

section \<open>The zone names the program stores\<close>













lemma stored_zones_valid_initial: "users db = [] \<Longrightarrow> stored_zones_valid env db"
  by (simp add: stored_zones_valid_def)




section \<open>The interactive list and its limit\<close>

lemma show_tasks_delivered:
  "shown \<le> max_show \<Longrightarrow>
   length (filter (\<lambda>c. is_task_message c \<and> telegram env c = None)
             (fst (show_tasks env cid tz ts shown))) + shown \<le> max_show"
proof (induction ts arbitrary: shown)
  case Nil
  then show ?case by simp
next
  case (Cons t ts)
  show ?case
  proof (cases "shown \<ge> max_show")
    case True
    then show ?thesis using Cons.prems by (simp add: Let_def is_task_message_def)
  next
    case False
    let ?call = "send_message cid (build_task_message_text t tz) (Some (build_task_keyboard (task_id t)))"
    show ?thesis
    proof (cases "telegram env ?call")
      case None
      have "Suc shown \<le> max_show" using False by simp
      from Cons.IH [OF this] show ?thesis
        using False None by (simp add: Let_def is_task_message_def)
    next
      case (Some e)
      from Cons.IH [OF Cons.prems] show ?thesis
        using False Some by (simp add: Let_def is_task_message_def)
    qed
  qed
qed

lemma show_tasks_all_delivered:
  "\<forall>c. telegram env c = None \<Longrightarrow> shown \<le> max_show \<Longrightarrow>
   show_tasks env cid tz ts shown =
     (map (\<lambda>t. send_message cid (build_task_message_text t tz)
                 (Some (build_task_keyboard (task_id t)))) (take (max_show - shown) ts)
      @ (if length ts > max_show - shown
         then [send_message cid (Fmt ''...(First {max_show})'' [I (int max_show)]) None] else []),
      None)"
proof (induction ts arbitrary: shown)
  case Nil
  then show ?case by simp
next
  case (Cons t ts)
  show ?case
  proof (cases "shown \<ge> max_show")
    case True
    then have "shown = max_show" using Cons.prems by simp
    then show ?thesis using Cons.prems(1) by (simp add: Let_def)
  next
    case False
    then have s: "Suc shown \<le> max_show" by simp
    have m: "max_show - shown = Suc (max_show - Suc shown)" using False by simp
    show ?thesis
      using False Cons.prems(1) Cons.IH [OF Cons.prems(1) s]
      by (simp add: Let_def m)
  qed
qed

lemma delivered_Cons:
  "delivered env cid tz (t # ts)
     = (if telegram env (task_message cid tz t) = None then 1 else 0) + delivered env cid tz ts"
  by (simp add: delivered_def)

lemma delivered_Nil: "delivered env cid tz [] = 0"
  by (simp add: delivered_def)

lemma show_tasks_trace:
  "shown \<le> max_show \<Longrightarrow>
   \<exists>n \<le> length ts.
      show_tasks env cid tz ts shown
        = (map (task_message cid tz) (take n ts) @ (if n < length ts then [notice cid] else []),
           if n < length ts then telegram env (notice cid) else None)
    \<and> (\<forall>i < length ts. (i < n) = (shown + delivered env cid tz (take i ts) < max_show))"
proof (induction ts arbitrary: shown)
  case Nil
  show ?case by simp
next
  case (Cons t ts)
  show ?case
  proof (cases "shown \<ge> max_show")
    case True
    then have "show_tasks env cid tz (t # ts) shown
        = (map (task_message cid tz) (take 0 (t # ts))
             @ (if 0 < length (t # ts) then [notice cid] else []),
           if 0 < length (t # ts) then telegram env (notice cid) else None)"
      by (simp add: Let_def notice_def)
    moreover have "\<forall>i < length (t # ts).
        (i < 0) = (shown + delivered env cid tz (take i (t # ts)) < max_show)"
      using True by simp
    ultimately show ?thesis by (intro exI [of _ 0] conjI) simp_all
  next
    case False
    let ?shown = "if telegram env (task_message cid tz t) = None then shown + 1 else shown"
    have "?shown \<le> max_show" using False by simp
    from Cons.IH [OF this] obtain n where n: "n \<le> length ts"
      and tr: "show_tasks env cid tz ts ?shown
        = (map (task_message cid tz) (take n ts) @ (if n < length ts then [notice cid] else []),
           if n < length ts then telegram env (notice cid) else None)"
      and cnt: "\<forall>i < length ts. (i < n) = (?shown + delivered env cid tz (take i ts) < max_show)"
      by blast
    have "show_tasks env cid tz (t # ts) shown
        = (map (task_message cid tz) (take (Suc n) (t # ts))
             @ (if Suc n < length (t # ts) then [notice cid] else []),
           if Suc n < length (t # ts) then telegram env (notice cid) else None)"
      using False tr by (simp add: Let_def task_message_def)
    moreover have "\<forall>i < length (t # ts).
        (i < Suc n) = (shown + delivered env cid tz (take i (t # ts)) < max_show)"
    proof (intro allI impI)
      fix i assume i: "i < length (t # ts)"
      show "(i < Suc n) = (shown + delivered env cid tz (take i (t # ts)) < max_show)"
      proof (cases i)
        case 0
        then show ?thesis using False by (simp add: delivered_Nil)
      next
        case (Suc j)
        then have "j < length ts" using i by simp
        then have "(j < n) = (?shown + delivered env cid tz (take j ts) < max_show)"
          using cnt by simp
        then show ?thesis using Suc by (simp add: delivered_Cons)
      qed
    qed
    moreover have "Suc n \<le> length (t # ts)" using n by simp
    ultimately show ?thesis by (intro exI [of _ "Suc n"] conjI)
  qed
qed

text \<open>
  Claim C10, as the code has it, for an owner with more than 20 pending tasks whose zone
  resolves and whose list is fetched. \<open>/list\<close> delivers at most 20 task messages. When
  every call on Telegram succeeds, the command sends the header, one message with buttons
  for each of the first 20 tasks, and then the notice, and raises nothing. The
  conversational list returns one text with a line for every task of the list. In general,
  once the header is delivered, the command sends the messages for the tasks of the list up
  to some position \<open>n\<close>, in order, and then the notice if tasks are left; a task gets its
  message exactly when fewer than 20 of the messages for the tasks before it were
  delivered, so a message that Telegram refuses does not count towards the limit.
\<close>

theorem list_tasks_command_limit:
  assumes tz: "get_user_tz env db uid = Inr tz"
    and ok: "\<not> sqlite_error env (Q_get_user_tasks uid ''pending'')"
    and many: "length (get_user_tasks False db uid ''pending'') > max_show"
  shows "length (filter (\<lambda>c. is_task_message c \<and> telegram env c = None)
                   (fst (snd (list_tasks_command env db uid cid)))) \<le> max_show
     \<and> ((\<forall>c. telegram env c = None) \<longrightarrow>
          list_tasks_command env db uid cid =
            (db,
             reply_text (Fmt ''Pending tasks (Times: {user_tz.key}):'' [S (key tz)])
             # map (\<lambda>t. send_message cid (build_task_message_text t tz)
                          (Some (build_task_keyboard (task_id t))))
                 (take max_show (get_user_tasks False db uid ''pending''))
             @ [send_message cid (Fmt ''...(First {max_show})'' [I (int max_show)]) None],
             None))
     \<and> (uid \<noteq> 0 \<longrightarrow>
          list_tasks_logic env db uid ''pending''
            = Inr (Fmt ''OK. Your {status_filter} tasks (Times in {user_tz.key}):{formatted_list}''
                    [S ''pending'', S (key tz),
                     L (map (\<lambda>task. list_line task tz)
                          (get_user_tasks False db uid ''pending''))]))
     \<and> (telegram env (reply_text (Fmt ''Pending tasks (Times: {user_tz.key}):'' [S (key tz)]))
            = None \<longrightarrow>
          (\<exists>n \<le> length (get_user_tasks False db uid ''pending'').
              list_tasks_command env db uid cid =
                (db,
                 reply_text (Fmt ''Pending tasks (Times: {user_tz.key}):'' [S (key tz)])
                 # map (task_message cid tz) (take n (get_user_tasks False db uid ''pending''))
                 @ (if n < length (get_user_tasks False db uid ''pending'')
                    then [notice cid] else []),
                 if n < length (get_user_tasks False db uid ''pending'')
                 then telegram env (notice cid) else None)
            \<and> (\<forall>i < length (get_user_tasks False db uid ''pending'').
                  (i < n) = (delivered env cid tz
                               (take i (get_user_tasks False db uid ''pending'')) < max_show))))"
proof (intro conjI impI)
  let ?ts = "get_user_tasks False db uid ''pending''"
  have ne: "?ts \<noteq> []" using many by auto
  show "length (filter (\<lambda>c. is_task_message c \<and> telegram env c = None)
                   (fst (snd (list_tasks_command env db uid cid)))) \<le> max_show"
    using show_tasks_delivered [of 0 env cid tz ?ts] tz ok ne
    by (auto simp: list_tasks_command_def Let_def is_task_message_def split: option.splits)
next
  let ?ts = "get_user_tasks False db uid ''pending''"
  have ne: "?ts \<noteq> []" using many by auto
  assume all: "\<forall>c. telegram env c = None"
  show "list_tasks_command env db uid cid =
            (db,
             reply_text (Fmt ''Pending tasks (Times: {user_tz.key}):'' [S (key tz)])
             # map (\<lambda>t. send_message cid (build_task_message_text t tz)
                          (Some (build_task_keyboard (task_id t))))
                 (take max_show ?ts)
             @ [send_message cid (Fmt ''...(First {max_show})'' [I (int max_show)]) None],
             None)"
    using tz ok ne many all show_tasks_all_delivered [OF all, of 0 cid tz ?ts]
    by (simp add: list_tasks_command_def Let_def)
next
  let ?ts = "get_user_tasks False db uid ''pending''"
  have ne: "?ts \<noteq> []" using many by auto
  assume "uid \<noteq> 0"
  then show "list_tasks_logic env db uid ''pending''
            = Inr (Fmt ''OK. Your {status_filter} tasks (Times in {user_tz.key}):{formatted_list}''
                    [S ''pending'', S (key tz), L (map (\<lambda>task. list_line task tz) ?ts)])"
    using tz ok ne by (simp add: list_tasks_logic_def Let_def)
next
  let ?ts = "get_user_tasks False db uid ''pending''"
  let ?header = "reply_text (Fmt ''Pending tasks (Times: {user_tz.key}):'' [S (key tz)])"
  have ne: "?ts \<noteq> []" using many by auto
  assume h: "telegram env ?header = None"
  have cmd: "list_tasks_command env db uid cid
      = (db, ?header # fst (show_tasks env cid tz ?ts 0), snd (show_tasks env cid tz ?ts 0))"
    using tz ok ne h by (simp add: list_tasks_command_def Let_def)
  have "0 \<le> max_show" by simp
  from show_tasks_trace [OF this, of ?ts env cid tz]
  obtain n where n: "n \<le> length ?ts"
    and tr: "show_tasks env cid tz ?ts 0
        = (map (task_message cid tz) (take n ?ts) @ (if n < length ?ts then [notice cid] else []),
           if n < length ?ts then telegram env (notice cid) else None)"
    and cnt: "\<forall>i < length ?ts. (i < n) = (0 + delivered env cid tz (take i ?ts) < max_show)"
    by blast
  have run: "list_tasks_command env db uid cid =
                (db,
                 ?header # map (task_message cid tz) (take n ?ts)
                 @ (if n < length ?ts then [notice cid] else []),
                 if n < length ?ts then telegram env (notice cid) else None)"
    unfolding cmd tr by simp
  have rule: "\<forall>i < length ?ts. (i < n) = (delivered env cid tz (take i ?ts) < max_show)"
    using cnt by simp
  show "\<exists>n \<le> length ?ts.
              list_tasks_command env db uid cid =
                (db,
                 ?header # map (task_message cid tz) (take n ?ts)
                 @ (if n < length ?ts then [notice cid] else []),
                 if n < length ?ts then telegram env (notice cid) else None)
            \<and> (\<forall>i < length ?ts.
                  (i < n) = (delivered env cid tz (take i ?ts) < max_show))"
    using n run rule by (intro exI [of _ n] conjI)
qed

lemma tasks_many:
  "get_user_tasks False db_many 12345 ''pending'' = map numbered [1..<22]"
  by (simp add: get_user_tasks_def db_many_def numbered_def thesis_def order_by_def
      less_eq_prod_def upt_rec [of _ "numeral _"])

lemma get_user_tz_many:
  "get_user_tz env_ok db_many 12345 = Inr (Zone ''Asia/Tashkent'')"
  "get_user_tz env_first_refused db_many 12345 = Inr (Zone ''Asia/Tashkent'')"
  by (simp_all add: get_user_tz_def get_user_timezone_str_def env_first_refused_def env_ok_def
      db_many_def tz_lookup_ok_def)

lemma show_tasks_below_limit:
  "length ts + shown \<le> max_show \<Longrightarrow>
   show_tasks env cid tz ts shown =
     (map (\<lambda>t. send_message cid (build_task_message_text t tz)
                 (Some (build_task_keyboard (task_id t)))) ts, None)"
proof (induction ts arbitrary: shown)
  case Nil
  show ?case by simp
next
  case (Cons t ts)
  let ?call = "send_message cid (build_task_message_text t tz) (Some (build_task_keyboard (task_id t)))"
  have lt: "\<not> shown \<ge> max_show" using Cons.prems by simp
  have "length ts + (if telegram env ?call = None then shown + 1 else shown) \<le> max_show"
    using Cons.prems by simp
  from Cons.IH [OF this] show ?case using lt by (simp add: Let_def)
qed

lemma many_split: "map numbered [1..<22] = numbered 1 # map numbered [2..<22]"
proof -
  have lt: "(1::nat) < 22" by simp
  have "[1..<22] = 1 # [Suc 1..<22]" by (rule upt_conv_Cons [OF lt])
  then have "[1..<22] = 1 # [2..<22]" by (simp only: Suc_1)
  then show ?thesis by (simp only: list.map)
qed

lemma show_tasks_head_refused:
  assumes "telegram env (send_message cid (build_task_message_text t tz)
                           (Some (build_task_keyboard (task_id t)))) = Some e"
    and "length ts + shown \<le> max_show" and "shown < max_show"
  shows "show_tasks env cid tz (t # ts) shown =
     (map (\<lambda>t. send_message cid (build_task_message_text t tz)
                 (Some (build_task_keyboard (task_id t)))) (t # ts), None)"
  using assms show_tasks_below_limit [OF assms(2), of env cid tz]
  by (simp add: Let_def)

lemma first_refused:
  "telegram env_first_refused
     (send_message 67890 (build_task_message_text (numbered 1) (Zone ''Asia/Tashkent''))
        (Some (build_task_keyboard (task_id (numbered 1))))) = Some BadRequest"
  by (simp add: env_first_refused_def)

lemma delivered_le_length: "delivered env cid tz ts \<le> length ts"
  by (simp add: delivered_def)

lemma delivered_head_refused:
  "delivered env_first_refused 67890 (Zone ''Asia/Tashkent'')
     (take 20 (get_user_tasks False db_many 12345 ''pending'')) < max_show"
proof -
  have t: "take 20 (map numbered [1..<22]) = numbered 1 # take 19 (map numbered [2..<22])"
    unfolding many_split by simp
  have "delivered env_first_refused 67890 (Zone ''Asia/Tashkent'')
          (numbered 1 # take 19 (map numbered [2..<22]))
        = delivered env_first_refused 67890 (Zone ''Asia/Tashkent'')
            (take 19 (map numbered [2..<22]))"
    using first_refused by (simp add: delivered_Cons task_message_def)
  also have "\<dots> \<le> length (take 19 (map numbered [2..<22]))"
    by (rule delivered_le_length)
  also have "\<dots> < max_show" by (simp add: max_show_def)
  finally show ?thesis by (simp only: tasks_many t)
qed

theorem list_tasks_command_limit_witness:
  "get_user_tz env_ok db_many 12345 = Inr (Zone ''Asia/Tashkent'')
   \<and> \<not> sqlite_error env_ok (Q_get_user_tasks 12345 ''pending'')
   \<and> max_show < length (get_user_tasks False db_many 12345 ''pending'')
   \<and> length (filter (\<lambda>c. is_task_message c \<and> telegram env_ok c = None)
               (fst (snd (list_tasks_command env_ok db_many 12345 67890)))) \<le> max_show
   \<and> list_tasks_command env_ok db_many 12345 67890 =
        (db_many,
         reply_text (Fmt ''Pending tasks (Times: {user_tz.key}):'' [S (key (Zone ''Asia/Tashkent''))])
         # map (\<lambda>t. send_message 67890 (build_task_message_text t (Zone ''Asia/Tashkent''))
                      (Some (build_task_keyboard (task_id t))))
             (take max_show (get_user_tasks False db_many 12345 ''pending''))
         @ [send_message 67890 (Fmt ''...(First {max_show})'' [I (int max_show)]) None],
         None)
   \<and> get_user_tz env_first_refused db_many 12345 = Inr (Zone ''Asia/Tashkent'')
   \<and> \<not> sqlite_error env_first_refused (Q_get_user_tasks 12345 ''pending'')
   \<and> telegram env_first_refused
        (reply_text (Fmt ''Pending tasks (Times: {user_tz.key}):''
                       [S (key (Zone ''Asia/Tashkent''))])) = None
   \<and> (\<exists>n \<le> length (get_user_tasks False db_many 12345 ''pending'').
         20 < n
       \<and> list_tasks_command env_first_refused db_many 12345 67890 =
           (db_many,
            reply_text (Fmt ''Pending tasks (Times: {user_tz.key}):''
                          [S (key (Zone ''Asia/Tashkent''))])
            # map (task_message 67890 (Zone ''Asia/Tashkent''))
                (take n (get_user_tasks False db_many 12345 ''pending''))
            @ (if n < length (get_user_tasks False db_many 12345 ''pending'')
               then [notice 67890] else []),
            if n < length (get_user_tasks False db_many 12345 ''pending'')
            then telegram env_first_refused (notice 67890) else None))"
proof -
  let ?ts = "get_user_tasks False db_many 12345 ''pending''"
  let ?header = "reply_text (Fmt ''Pending tasks (Times: {user_tz.key}):''
                       [S (key (Zone ''Asia/Tashkent''))])"
  have tz: "get_user_tz env_ok db_many 12345 = Inr (Zone ''Asia/Tashkent'')"
    by (rule get_user_tz_many)
  have ok: "\<not> sqlite_error env_ok (Q_get_user_tasks 12345 ''pending'')"
    by (simp add: env_ok_def)
  have many: "max_show < length ?ts"
    by (simp add: tasks_many max_show_def)
  have all: "\<forall>c. telegram env_ok c = None" by (simp add: env_ok_def)
  note t = list_tasks_command_limit [OF tz ok many, of 67890]
  have tz': "get_user_tz env_first_refused db_many 12345 = Inr (Zone ''Asia/Tashkent'')"
    by (rule get_user_tz_many)
  have ok': "\<not> sqlite_error env_first_refused (Q_get_user_tasks 12345 ''pending'')"
    by (simp add: env_first_refused_def env_ok_def)
  have h: "telegram env_first_refused ?header = None"
    by (simp add: env_first_refused_def)
  note u = list_tasks_command_limit [OF tz' ok' many, of 67890]
  have last: "(20::nat) < length ?ts" by (simp add: tasks_many)
  have cut: "\<exists>n \<le> length ?ts.
         20 < n
       \<and> list_tasks_command env_first_refused db_many 12345 67890 =
           (db_many,
            ?header # map (task_message 67890 (Zone ''Asia/Tashkent'')) (take n ?ts)
            @ (if n < length ?ts then [notice 67890] else []),
            if n < length ?ts then telegram env_first_refused (notice 67890) else None)"
    using u [THEN conjunct2, THEN conjunct2, THEN conjunct2, THEN mp, OF h]
  proof (elim exE conjE)
    fix n
    assume n: "n \<le> length ?ts"
      and run: "list_tasks_command env_first_refused db_many 12345 67890 =
           (db_many,
            ?header # map (task_message 67890 (Zone ''Asia/Tashkent'')) (take n ?ts)
            @ (if n < length ?ts then [notice 67890] else []),
            if n < length ?ts then telegram env_first_refused (notice 67890) else None)"
      and cnt: "\<forall>i < length ?ts.
                  (i < n) = (delivered env_first_refused 67890 (Zone ''Asia/Tashkent'')
                               (take i ?ts) < max_show)"
    have "20 < n"
      using cnt [THEN spec, THEN mp, OF last] delivered_head_refused by simp
    then show ?thesis using n run by (intro exI [of _ n] conjI)
  qed
  show ?thesis
    using tz ok many t [THEN conjunct1] t [THEN conjunct2, THEN conjunct1, THEN mp, OF all]
      tz' ok' h cut
    by (intro conjI)
qed

text \<open>
  The claim as stated has messages for at most the first 20 tasks, and then the notice.
  With 21 pending tasks and the message for task 1 refused, \<open>shown\<close> is still 0 after
  task 1, so the tasks 2 to 21 are all shown: task 21, which is not among the first 20,
  gets a delivered message, and no notice is sent.
\<close>

lemma notice_not_task_message:
  "send_message c txt None \<notin> set (map (\<lambda>t. send_message c' (g t) (Some (k t))) xs)"
  by (induction xs) simp_all

lemma calls_many:
  "fst (snd (list_tasks_command env_first_refused db_many 12345 67890))
     = reply_text (Fmt ''Pending tasks (Times: {user_tz.key}):'' [S ''Asia/Tashkent''])
       # map (\<lambda>t. send_message 67890 (build_task_message_text t (Zone ''Asia/Tashkent''))
                     (Some (build_task_keyboard (task_id t))))
           (map numbered [1..<22])"
proof -
  have e: "sqlite_error env_first_refused (Q_get_user_tasks 12345 ''pending'') = False"
    by (simp add: env_first_refused_def env_ok_def)
  have h: "telegram env_first_refused
             (reply_text (Fmt ''Pending tasks (Times: {user_tz.key}):'' [S ''Asia/Tashkent'']))
           = None"
    by (simp add: env_first_refused_def)
  have ne: "get_user_tasks False db_many 12345 ''pending'' \<noteq> []"
    unfolding tasks_many many_split by simp
  have l: "show_tasks env_first_refused 67890 (Zone ''Asia/Tashkent'')
             (map numbered [1..<22]) 0
      = (map (\<lambda>t. send_message 67890 (build_task_message_text t (Zone ''Asia/Tashkent''))
                     (Some (build_task_keyboard (task_id t)))) (map numbered [1..<22]), None)"
    unfolding many_split
  proof (rule show_tasks_head_refused)
    show "telegram env_first_refused
            (send_message 67890 (build_task_message_text (numbered 1) (Zone ''Asia/Tashkent''))
               (Some (build_task_keyboard (task_id (numbered 1))))) = Some BadRequest"
      by (rule first_refused)
    show "length (map numbered [2..<22]) + 0 \<le> max_show" by (simp add: max_show_def)
    show "0 < max_show" by (simp add: max_show_def)
  qed
  have "fst (snd (list_tasks_command env_first_refused db_many 12345 67890))
     = reply_text (Fmt ''Pending tasks (Times: {user_tz.key}):'' [S ''Asia/Tashkent''])
       # fst (show_tasks env_first_refused 67890 (Zone ''Asia/Tashkent'')
              (get_user_tasks False db_many 12345 ''pending'') 0)"
    using ne by (simp add: list_tasks_command_def get_user_tz_many e h Let_def)
  then show ?thesis by (simp only: tasks_many l fst_conv)
qed

theorem later_task_shown_counterexample:
  "max_show < length (get_user_tasks False db_many 12345 ''pending'')
   \<and> get_user_tasks False db_many 12345 ''pending'' ! 20 = numbered 21
   \<and> send_message 67890 (build_task_message_text (numbered 21) (Zone ''Asia/Tashkent''))
        (Some (build_task_keyboard 21))
        \<in> set (fst (snd (list_tasks_command env_first_refused db_many 12345 67890)))
   \<and> telegram env_first_refused
        (send_message 67890 (build_task_message_text (numbered 21) (Zone ''Asia/Tashkent''))
           (Some (build_task_keyboard 21))) = None
   \<and> send_message 67890 (Fmt ''...(First {max_show})'' [I (int max_show)]) None
        \<notin> set (fst (snd (list_tasks_command env_first_refused db_many 12345 67890)))"
proof (intro conjI)
  let ?f = "\<lambda>t. send_message 67890 (build_task_message_text t (Zone ''Asia/Tashkent''))
                     (Some (build_task_keyboard (task_id t)))"
  let ?notice = "send_message 67890 (Fmt ''...(First {max_show})'' [I (int max_show)]) None"
  show "max_show < length (get_user_tasks False db_many 12345 ''pending'')"
    by (simp add: tasks_many max_show_def)
  show "get_user_tasks False db_many 12345 ''pending'' ! 20 = numbered 21"
    by (simp add: tasks_many)
  have id21: "task_id (numbered 21) = 21" by (simp add: numbered_def)
  have "?f (numbered 21) \<in> set (map ?f (map numbered [1..<22]))"
    by (simp only: set_map) (rule imageI, rule imageI, simp)
  then have "?f (numbered 21) \<in> set (fst (snd (list_tasks_command env_first_refused db_many 12345 67890)))"
    unfolding calls_many by (simp only: list.set insert_iff simp_thms)
  then show "send_message 67890 (build_task_message_text (numbered 21) (Zone ''Asia/Tashkent''))
        (Some (build_task_keyboard 21))
        \<in> set (fst (snd (list_tasks_command env_first_refused db_many 12345 67890)))"
    unfolding id21 .
  show "telegram env_first_refused
        (send_message 67890 (build_task_message_text (numbered 21) (Zone ''Asia/Tashkent''))
           (Some (build_task_keyboard 21))) = None"
    by (simp add: env_first_refused_def build_task_message_text_def numbered_def)
  have a: "?notice \<noteq> reply_text (Fmt ''Pending tasks (Times: {user_tz.key}):'' [S ''Asia/Tashkent''])"
    by simp
  have b: "?notice \<notin> set (map ?f (map numbered [1..<22]))"
    by (rule notice_not_task_message)
  show "?notice \<notin> set (fst (snd (list_tasks_command env_first_refused db_many 12345 67890)))"
    unfolding calls_many using a b by (simp only: list.set insert_iff simp_thms)
qed

end
